theory Spec2Isabelle
  imports Main "HOL-Library.AList" "HOL-Library.Multiset"
begin

section \<open>Python values the program works with\<close>

subsection \<open>Strings\<close>

text \<open>
  A Python \<open>str\<close> is modelled by its UTF-8 encoding, a \<open>string\<close> of bytes. Equality,
  concatenation and emptiness of the text and of its encoding agree, and these are what
  the program uses besides \<open>str.strip\<close> and \<open>int\<close>, modelled below on the encoding. The
  program's Korean literals are written out as byte lists, each with a gloss.
\<close>

definition STATUS_DONE :: string where
  \<comment> \<open>done\<close>
  "STATUS_DONE =
     [CHR 0xEC, CHR 0x99, CHR 0x84, CHR 0xEB, CHR 0xA3, CHR 0x8C]"

definition STATUS_WRONG :: string where
  \<comment> \<open>wrong\<close>
  "STATUS_WRONG =
     [CHR 0xED, CHR 0x8B, CHR 0x80, CHR 0xEB, CHR 0xA6, CHR 0xBC]"

definition STATUS_FIXED :: string where
  \<comment> \<open>wrong but fixed\<close>
  "STATUS_FIXED =
     [CHR 0xED, CHR 0x8B, CHR 0x80, CHR 0xEB, CHR 0xA0, CHR 0xB8, CHR 0xEC, CHR 0xA7,
        CHR 0x80, CHR 0xEB, CHR 0xA7, CHR 0x8C]
     @ '' ''
     @ [CHR 0xEA, CHR 0xB3, CHR 0xA0, CHR 0xEC, CHR 0xB9, CHR 0xA8]"

definition STATUS_QUESTION :: string where
  \<comment> \<open>question\<close>
  "STATUS_QUESTION =
     [CHR 0xEC, CHR 0xA7, CHR 0x88, CHR 0xEB, CHR 0xAC, CHR 0xB8]"

definition MSG_BOUND :: string where
  \<comment> \<open>problem numbers must be 1 or more\<close>
  "MSG_BOUND =
     [CHR 0xEB, CHR 0xAC, CHR 0xB8, CHR 0xED, CHR 0x95, CHR 0xAD]
     @ '' ''
     @ [CHR 0xEB, CHR 0xB2, CHR 0x88, CHR 0xED, CHR 0x98, CHR 0xB8, CHR 0xEB, CHR 0x8A,
        CHR 0x94]
     @ '' 1 ''
     @ [CHR 0xEC, CHR 0x9D, CHR 0xB4, CHR 0xEC, CHR 0x83, CHR 0x81, CHR 0xEC, CHR 0x9D,
        CHR 0xB4, CHR 0xEC, CHR 0x96, CHR 0xB4, CHR 0xEC, CHR 0x95, CHR 0xBC]
     @ '' ''
     @ [CHR 0xED, CHR 0x95, CHR 0xA9, CHR 0xEB, CHR 0x8B, CHR 0x88, CHR 0xEB, CHR 0x8B,
        CHR 0xA4]
     @ ''.''"

definition MSG_SPAN :: string where
  \<comment> \<open>the range is too large (more than 500 items)\<close>
  "MSG_SPAN =
     [CHR 0xEB, CHR 0xB2, CHR 0x94, CHR 0xEC, CHR 0x9C, CHR 0x84, CHR 0xEA, CHR 0xB0,
        CHR 0x80]
     @ '' ''
     @ [CHR 0xEB, CHR 0x84, CHR 0x88, CHR 0xEB, CHR 0xAC, CHR 0xB4]
     @ '' ''
     @ [CHR 0xED, CHR 0x81, CHR 0xBD, CHR 0xEB, CHR 0x8B, CHR 0x88, CHR 0xEB, CHR 0x8B,
        CHR 0xA4]
     @ ''(500''
     @ [CHR 0xEA, CHR 0xB0, CHR 0x9C]
     @ '' ''
     @ [CHR 0xEC, CHR 0xB4, CHR 0x88, CHR 0xEA, CHR 0xB3, CHR 0xBC]
     @ '').''"

definition MSG_NO_RANGE :: string where
  \<comment> \<open>the homework range has not been set\<close>
  "MSG_NO_RANGE =
     [CHR 0xEC, CHR 0x88, CHR 0x99, CHR 0xEC, CHR 0xA0, CHR 0x9C]
     @ '' ''
     @ [CHR 0xEB, CHR 0xB2, CHR 0x94, CHR 0xEC, CHR 0x9C, CHR 0x84, CHR 0xEA, CHR 0xB0,
        CHR 0x80]
     @ '' ''
     @ [CHR 0xEC, CHR 0x84, CHR 0xA4, CHR 0xEC, CHR 0xA0, CHR 0x95, CHR 0xEB, CHR 0x90,
        CHR 0x98, CHR 0xEC, CHR 0xA7, CHR 0x80]
     @ '' ''
     @ [CHR 0xEC, CHR 0x95, CHR 0x8A, CHR 0xEC, CHR 0x95, CHR 0x98, CHR 0xEC, CHR 0x8A,
        CHR 0xB5, CHR 0xEB, CHR 0x8B, CHR 0x88, CHR 0xEB, CHR 0x8B, CHR 0xA4]
     @ ''.''"

definition TAG_CLOSE :: string where
  \<comment> \<open>the counter word for a number, then the closing bracket\<close>
  "TAG_CLOSE =
     [CHR 0xEB, CHR 0xB2, CHR 0x88]
     @ '']''"

definition NO_MEMO :: string where
  \<comment> \<open>(no memo), after a space\<close>
  "NO_MEMO =
     '' (''
     @ [CHR 0xEB, CHR 0xA9, CHR 0x94, CHR 0xEB, CHR 0xAA, CHR 0xA8]
     @ '' ''
     @ [CHR 0xEC, CHR 0x97, CHR 0x86, CHR 0xEC, CHR 0x9D, CHR 0x8C]
     @ '')''"

definition HDR_TITLE :: string where
  \<comment> \<open>check mark, today's homework summary\<close>
  "HDR_TITLE =
     [CHR 0xE2, CHR 0x9C, CHR 0x85]
     @ '' ''
     @ [CHR 0xEC, CHR 0x98, CHR 0xA4, CHR 0xEB, CHR 0x8A, CHR 0x98]
     @ '' ''
     @ [CHR 0xEC, CHR 0x88, CHR 0x99, CHR 0xEC, CHR 0xA0, CHR 0x9C]
     @ '' ''
     @ [CHR 0xEC, CHR 0xA0, CHR 0x95, CHR 0xEB, CHR 0xA6, CHR 0xAC]"

definition HDR_BOOK :: string where
  \<comment> \<open>workbook\<close>
  "HDR_BOOK =
     ''- ''
     @ [CHR 0xEB, CHR 0xAC, CHR 0xB8, CHR 0xEC, CHR 0xA0, CHR 0x9C, CHR 0xEC, CHR 0xA7,
        CHR 0x91]
     @ '': ''"

definition NO_BOOK :: string where
  \<comment> \<open>(not entered)\<close>
  "NO_BOOK =
     ''(''
     @ [CHR 0xEB, CHR 0xAF, CHR 0xB8, CHR 0xEC, CHR 0x9E, CHR 0x85, CHR 0xEB, CHR 0xA0,
        CHR 0xA5]
     @ '')''"

definition HDR_RANGE :: string where
  \<comment> \<open>range\<close>
  "HDR_RANGE =
     ''- ''
     @ [CHR 0xEB, CHR 0xB2, CHR 0x94, CHR 0xEC, CHR 0x9C, CHR 0x84]
     @ '': p.''"

definition HDR_DATE :: string where
  \<comment> \<open>date\<close>
  "HDR_DATE =
     ''- ''
     @ [CHR 0xEB, CHR 0x82, CHR 0xA0, CHR 0xEC, CHR 0xA7, CHR 0x9C]
     @ '': ''"

definition HDR_WRONG :: string where
  \<comment> \<open>cross mark, wrong\<close>
  "HDR_WRONG =
     [CHR 0xE2, CHR 0x9D, CHR 0x8C]
     @ '' ''
     @ [CHR 0xED, CHR 0x8B, CHR 0x80, CHR 0xEB, CHR 0xA6, CHR 0xBC]"

definition NONE_TEXT :: string where
  \<comment> \<open>none\<close>
  "NONE_TEXT =
     [CHR 0xEC, CHR 0x97, CHR 0x86, CHR 0xEC, CHR 0x9D, CHR 0x8C]"

definition HDR_FIXED :: string where
  \<comment> \<open>tools sign, wrong but fixed\<close>
  "HDR_FIXED =
     [CHR 0xF0, CHR 0x9F, CHR 0x9B, CHR 0xA0, CHR 0xEF, CHR 0xB8, CHR 0x8F]
     @ '' ''
     @ [CHR 0xED, CHR 0x8B, CHR 0x80, CHR 0xEB, CHR 0xA0, CHR 0xB8, CHR 0xEC, CHR 0xA7,
        CHR 0x80, CHR 0xEB, CHR 0xA7, CHR 0x8C]
     @ '' ''
     @ [CHR 0xEA, CHR 0xB3, CHR 0xA0, CHR 0xEC, CHR 0xB9, CHR 0xA8]"

definition HDR_QUES :: string where
  \<comment> \<open>question mark, question + memo\<close>
  "HDR_QUES =
     [CHR 0xE2, CHR 0x9D, CHR 0x93]
     @ '' ''
     @ [CHR 0xEC, CHR 0xA7, CHR 0x88, CHR 0xEB, CHR 0xAC, CHR 0xB8]
     @ '' + ''
     @ [CHR 0xEB, CHR 0xA9, CHR 0x94, CHR 0xEB, CHR 0xAA, CHR 0xA8]"

definition STATUSES :: "string list" where
  "STATUSES = [STATUS_DONE, STATUS_WRONG, STATUS_FIXED, STATUS_QUESTION]"

subsection \<open>\<open>str\<close> of an integer\<close>

text \<open>
  \<open>str(i)\<close> is the decimal rendering of \<open>i\<close>, with a minus sign for a negative number
  and no leading zero. (The interpreter's configurable limit on the number of digits of
  such a conversion is not modelled.)
\<close>

definition digit_char :: "nat \<Rightarrow> char" where
  "digit_char d = ''0123456789'' ! d"

fun str_nat :: "nat \<Rightarrow> string" where
  "str_nat n =
     (if n < 10 then [digit_char n] else str_nat (n div 10) @ [digit_char (n mod 10)])"

declare str_nat.simps [simp del]

definition str_int :: "int \<Rightarrow> string" where
  "str_int i = (if i < 0 then CHR ''-'' # str_nat (nat (- i)) else str_nat (nat i))"

subsection \<open>\<open>str.strip\<close>\<close>

text \<open>
  \<open>s.strip()\<close> removes the whitespace characters at both ends of \<open>s\<close>. The characters
  Python counts as whitespace are U+0009..U+000D, U+001C..U+0020, U+0085, U+00A0, U+1680,
  U+2000..U+200A, U+2028, U+2029, U+202F, U+205F and U+3000; \<open>WHITESPACE\<close> lists their
  encodings. Each round of \<open>strip_n\<close> removes one of them from the front, so \<open>length s\<close>
  rounds always suffice.
\<close>

definition WHITESPACE :: "string list" where
  "WHITESPACE =
     [ [CHR 0x09], [CHR 0x0A], [CHR 0x0B], [CHR 0x0C], [CHR 0x0D],
      [CHR 0x1C], [CHR 0x1D], [CHR 0x1E], [CHR 0x1F], [CHR 0x20],
      [CHR 0xC2, CHR 0x85], [CHR 0xC2, CHR 0xA0],
      [CHR 0xE1, CHR 0x9A, CHR 0x80],
      [CHR 0xE2, CHR 0x80, CHR 0x80], [CHR 0xE2, CHR 0x80, CHR 0x81],
      [CHR 0xE2, CHR 0x80, CHR 0x82], [CHR 0xE2, CHR 0x80, CHR 0x83],
      [CHR 0xE2, CHR 0x80, CHR 0x84], [CHR 0xE2, CHR 0x80, CHR 0x85],
      [CHR 0xE2, CHR 0x80, CHR 0x86], [CHR 0xE2, CHR 0x80, CHR 0x87],
      [CHR 0xE2, CHR 0x80, CHR 0x88], [CHR 0xE2, CHR 0x80, CHR 0x89],
      [CHR 0xE2, CHR 0x80, CHR 0x8A],
      [CHR 0xE2, CHR 0x80, CHR 0xA8], [CHR 0xE2, CHR 0x80, CHR 0xA9],
      [CHR 0xE2, CHR 0x80, CHR 0xAF], [CHR 0xE2, CHR 0x81, CHR 0x9F],
      [CHR 0xE3, CHR 0x80, CHR 0x80] ]"

fun strip_n :: "nat \<Rightarrow> string list \<Rightarrow> string \<Rightarrow> string" where
  "strip_n 0 W s = s"
| "strip_n (Suc n) W s =
     (case find (\<lambda>w. take (length w) s = w) W of
        None \<Rightarrow> s
      | Some w \<Rightarrow> strip_n n W (drop (length w) s))"

definition lstrip :: "string \<Rightarrow> string" where
  "lstrip s = strip_n (length s) WHITESPACE s"

definition rstrip :: "string \<Rightarrow> string" where
  "rstrip s = rev (strip_n (length s) (map rev WHITESPACE) (rev s))"

definition strip :: "string \<Rightarrow> string" where
  "strip s = rstrip (lstrip s)"

subsection \<open>\<open>int\<close> of a string\<close>

text \<open>
  \<open>int(s)\<close> works in two steps, as the interpreter does. First every character that is
  not ASCII is replaced: a whitespace character by a space, a decimal digit of any script
  by the ASCII digit of its value, anything else by a question mark (\<open>to_ascii\<close>). Then
  the ASCII text is read: the whitespace at both ends is dropped (space, tab, line feed,
  vertical tab, form feed and carriage return only; U+001C..U+001F are whitespace for
  \<open>str.strip\<close> but not here), an optional sign follows, and then decimal digits, between
  which single underscores may stand. Anything else raises \<open>ValueError\<close>, here \<open>None\<close>.
  Leading zeros are accepted, so \<open>int\<close> is not injective: \<open>''3''\<close> and \<open>''03''\<close> both give
  3.

  \<open>UNICODE_SPACES\<close> lists the encodings of U+0085, U+00A0, U+1680, U+2000..U+200A,
  U+2028, U+2029, U+202F, U+205F and U+3000. The decimal digits outside ASCII come in
  runs of ten consecutive characters, 0 to 9, and the encodings of a run differ in the
  last byte only; \<open>DIGIT_ZEROS\<close> lists the encoding of the zero of each of the 65 runs of
  Unicode 14.0, the version of CPython 3.11, from U+0660 to U+1FBF0. Later versions add
  runs, so no theorem below draws on \<open>py_int\<close> refusing a string. (As for \<open>str\<close>, the
  interpreter's limit on the number of digits is not modelled.)
\<close>

definition ASCII_SPACES :: string where
  "ASCII_SPACES = [CHR 0x09, CHR 0x0A, CHR 0x0B, CHR 0x0C, CHR 0x0D, CHR 0x20]"

definition UNICODE_SPACES :: "string list" where
  "UNICODE_SPACES =
     [ [CHR 0xC2, CHR 0x85], [CHR 0xC2, CHR 0xA0], [CHR 0xE1, CHR 0x9A, CHR 0x80],
       [CHR 0xE2, CHR 0x80, CHR 0x80], [CHR 0xE2, CHR 0x80, CHR 0x81], [CHR 0xE2, CHR 0x80, CHR 0x82],
       [CHR 0xE2, CHR 0x80, CHR 0x83], [CHR 0xE2, CHR 0x80, CHR 0x84], [CHR 0xE2, CHR 0x80, CHR 0x85],
       [CHR 0xE2, CHR 0x80, CHR 0x86], [CHR 0xE2, CHR 0x80, CHR 0x87], [CHR 0xE2, CHR 0x80, CHR 0x88],
       [CHR 0xE2, CHR 0x80, CHR 0x89], [CHR 0xE2, CHR 0x80, CHR 0x8A], [CHR 0xE2, CHR 0x80, CHR 0xA8],
       [CHR 0xE2, CHR 0x80, CHR 0xA9], [CHR 0xE2, CHR 0x80, CHR 0xAF], [CHR 0xE2, CHR 0x81, CHR 0x9F],
       [CHR 0xE3, CHR 0x80, CHR 0x80] ]"

definition DIGIT_ZEROS :: "string list" where
  "DIGIT_ZEROS =
     [ [CHR 0xD9, CHR 0xA0], [CHR 0xDB, CHR 0xB0], [CHR 0xDF, CHR 0x80],
       [CHR 0xE0, CHR 0xA5, CHR 0xA6], [CHR 0xE0, CHR 0xA7, CHR 0xA6], [CHR 0xE0, CHR 0xA9, CHR 0xA6],
       [CHR 0xE0, CHR 0xAB, CHR 0xA6], [CHR 0xE0, CHR 0xAD, CHR 0xA6], [CHR 0xE0, CHR 0xAF, CHR 0xA6],
       [CHR 0xE0, CHR 0xB1, CHR 0xA6], [CHR 0xE0, CHR 0xB3, CHR 0xA6], [CHR 0xE0, CHR 0xB5, CHR 0xA6],
       [CHR 0xE0, CHR 0xB7, CHR 0xA6], [CHR 0xE0, CHR 0xB9, CHR 0x90], [CHR 0xE0, CHR 0xBB, CHR 0x90],
       [CHR 0xE0, CHR 0xBC, CHR 0xA0], [CHR 0xE1, CHR 0x81, CHR 0x80], [CHR 0xE1, CHR 0x82, CHR 0x90],
       [CHR 0xE1, CHR 0x9F, CHR 0xA0], [CHR 0xE1, CHR 0xA0, CHR 0x90], [CHR 0xE1, CHR 0xA5, CHR 0x86],
       [CHR 0xE1, CHR 0xA7, CHR 0x90], [CHR 0xE1, CHR 0xAA, CHR 0x80], [CHR 0xE1, CHR 0xAA, CHR 0x90],
       [CHR 0xE1, CHR 0xAD, CHR 0x90], [CHR 0xE1, CHR 0xAE, CHR 0xB0], [CHR 0xE1, CHR 0xB1, CHR 0x80],
       [CHR 0xE1, CHR 0xB1, CHR 0x90], [CHR 0xEA, CHR 0x98, CHR 0xA0], [CHR 0xEA, CHR 0xA3, CHR 0x90],
       [CHR 0xEA, CHR 0xA4, CHR 0x80], [CHR 0xEA, CHR 0xA7, CHR 0x90], [CHR 0xEA, CHR 0xA7, CHR 0xB0],
       [CHR 0xEA, CHR 0xA9, CHR 0x90], [CHR 0xEA, CHR 0xAF, CHR 0xB0], [CHR 0xEF, CHR 0xBC, CHR 0x90],
       [CHR 0xF0, CHR 0x90, CHR 0x92, CHR 0xA0], [CHR 0xF0, CHR 0x90, CHR 0xB4, CHR 0xB0], [CHR 0xF0, CHR 0x91, CHR 0x81, CHR 0xA6],
       [CHR 0xF0, CHR 0x91, CHR 0x83, CHR 0xB0], [CHR 0xF0, CHR 0x91, CHR 0x84, CHR 0xB6], [CHR 0xF0, CHR 0x91, CHR 0x87, CHR 0x90],
       [CHR 0xF0, CHR 0x91, CHR 0x8B, CHR 0xB0], [CHR 0xF0, CHR 0x91, CHR 0x91, CHR 0x90], [CHR 0xF0, CHR 0x91, CHR 0x93, CHR 0x90],
       [CHR 0xF0, CHR 0x91, CHR 0x99, CHR 0x90], [CHR 0xF0, CHR 0x91, CHR 0x9B, CHR 0x80], [CHR 0xF0, CHR 0x91, CHR 0x9C, CHR 0xB0],
       [CHR 0xF0, CHR 0x91, CHR 0xA3, CHR 0xA0], [CHR 0xF0, CHR 0x91, CHR 0xA5, CHR 0x90], [CHR 0xF0, CHR 0x91, CHR 0xB1, CHR 0x90],
       [CHR 0xF0, CHR 0x91, CHR 0xB5, CHR 0x90], [CHR 0xF0, CHR 0x91, CHR 0xB6, CHR 0xA0], [CHR 0xF0, CHR 0x96, CHR 0xA9, CHR 0xA0],
       [CHR 0xF0, CHR 0x96, CHR 0xAB, CHR 0x80], [CHR 0xF0, CHR 0x96, CHR 0xAD, CHR 0x90], [CHR 0xF0, CHR 0x9D, CHR 0x9F, CHR 0x8E],
       [CHR 0xF0, CHR 0x9D, CHR 0x9F, CHR 0x98], [CHR 0xF0, CHR 0x9D, CHR 0x9F, CHR 0xA2], [CHR 0xF0, CHR 0x9D, CHR 0x9F, CHR 0xAC],
       [CHR 0xF0, CHR 0x9D, CHR 0x9F, CHR 0xB6], [CHR 0xF0, CHR 0x9E, CHR 0x85, CHR 0x80], [CHR 0xF0, CHR 0x9E, CHR 0x8B, CHR 0xB0],
       [CHR 0xF0, CHR 0x9E, CHR 0xA5, CHR 0x90], [CHR 0xF0, CHR 0x9F, CHR 0xAF, CHR 0xB0] ]"

definition digit_at :: "string \<Rightarrow> string \<Rightarrow> nat option" where
  \<comment> \<open>the value of the digit \<open>s\<close> starts with, if it is one of the run whose zero is \<open>z\<close>\<close>
  "digit_at z s =
     (let n = length z in
      if z \<noteq> [] \<and> n \<le> length s \<and> take (n - 1) s = butlast z
         \<and> (of_char (last z) :: nat) \<le> of_char (s ! (n - 1))
         \<and> (of_char (s ! (n - 1)) :: nat) \<le> of_char (last z) + 9
      then Some (of_char (s ! (n - 1)) - of_char (last z))
      else None)"

fun unicode_digit :: "string list \<Rightarrow> string \<Rightarrow> (nat \<times> nat) option" where
  \<comment> \<open>the value of the digit \<open>s\<close> starts with, and the number of its bytes\<close>
  "unicode_digit [] s = None"
| "unicode_digit (z # zs) s =
     (case digit_at z s of
        Some d \<Rightarrow> Some (d, length z)
      | None \<Rightarrow> unicode_digit zs s)"

fun to_ascii :: "string \<Rightarrow> string" where
  "to_ascii [] = []"
| "to_ascii (c # cs) =
     (if (of_char c :: nat) < 128 then c # to_ascii cs
      else
        (case find (\<lambda>w. take (length w) (c # cs) = w) UNICODE_SPACES of
           Some w \<Rightarrow> CHR '' '' # to_ascii (drop (length w - 1) cs)
         | None \<Rightarrow>
             (case unicode_digit DIGIT_ZEROS (c # cs) of
                Some (d, n) \<Rightarrow> digit_char d # to_ascii (drop (n - 1) cs)
              | None \<Rightarrow> CHR ''?'' # to_ascii cs)))"

definition ascii_strip :: "string \<Rightarrow> string" where
  "ascii_strip s =
     rev (dropWhile (\<lambda>c. c \<in> set ASCII_SPACES)
            (rev (dropWhile (\<lambda>c. c \<in> set ASCII_SPACES) s)))"

definition is_digit :: "char \<Rightarrow> bool" where
  "is_digit c = (c \<in> set ''0123456789'')"

definition digit_val :: "char \<Rightarrow> nat" where
  "digit_val c = of_char c - 48"

fun parse_digits :: "nat \<Rightarrow> string \<Rightarrow> nat option" where
  "parse_digits acc [] = Some acc"
| "parse_digits acc [c] = (if is_digit c then Some (10 * acc + digit_val c) else None)"
| "parse_digits acc (c # d # ds) =
     (if is_digit c then parse_digits (10 * acc + digit_val c) (d # ds)
      else if c = CHR ''_'' \<and> is_digit d then parse_digits (10 * acc + digit_val d) ds
      else None)"

definition parse_unsigned :: "string \<Rightarrow> nat option" where
  "parse_unsigned s =
     (case s of
        [] \<Rightarrow> None
      | c # cs \<Rightarrow> if is_digit c then parse_digits (digit_val c) cs else None)"

definition py_int :: "string \<Rightarrow> int option" where
  "py_int s =
     (case ascii_strip (to_ascii s) of
        [] \<Rightarrow> None
      | c # cs \<Rightarrow>
          if c = CHR ''-'' then map_option (\<lambda>n. - int n) (parse_unsigned cs)
          else if c = CHR ''+'' then map_option int (parse_unsigned cs)
          else map_option int (parse_unsigned (c # cs)))"

subsection \<open>Dictionaries\<close>

text \<open>
  A \<open>dict\<close> keeps its keys in insertion order, and \<open>build_summary\<close> sorts stably, so the
  order can show. A dictionary is therefore an association list: \<open>d[k] = v\<close> is
  \<open>AList.update\<close> (an existing key keeps its place, a new one goes to the end),
  \<open>d.pop(k, None)\<close> is \<open>AList.delete\<close>, \<open>d.get(k)\<close> is \<open>map_of\<close>, \<open>d.items()\<close> is the list itself. A
  list stands for a dictionary when its keys are distinct, and the operations keep them so.
\<close>

definition dict_has :: "('k \<times> 'v) list \<Rightarrow> 'k \<Rightarrow> bool" where
  "dict_has d k = (map_of d k \<noteq> None)"

definition dict :: "('k \<times> 'v) list \<Rightarrow> ('k \<times> 'v) list" where
  \<comment> \<open>\<open>dict(pairs)\<close>, and a dictionary display or comprehension: each pair is stored in turn\<close>
  "dict ps = foldl (\<lambda>d (k, v). AList.update k v d) [] ps"

section \<open>Data model\<close>

text \<open>
  The three dataclasses. \<open>done\<close> is a keyword of the proof language, so the field is
  \<open>page_done\<close>. The bounds are annotated \<open>Optional[int]\<close>, and every function but
  \<open>load_state\<close> is modelled at that type, \<open>int option\<close>. \<open>load_state\<close> stores whatever
  value the file holds for a bound, unchecked, so the records take the type of a bound
  as a parameter.
\<close>

record Problem =
  status :: string
  memo :: string

record 'b PageUnit =
  page_done :: bool
  start_problem :: 'b
  end_problem :: 'b
  problems :: "(string \<times> Problem) list"

record 'b AppState =
  book_name :: string
  start_page :: 'b
  end_page :: 'b
  pages :: "(string \<times> 'b PageUnit) list"

datatype error =
  ValueError string
| InvalidLiteral string
| AttributeError
| DecodeError

text \<open>
  \<open>ValueError m\<close> is a \<open>ValueError\<close> the program raises itself, with its message;
  \<open>InvalidLiteral s\<close> is the \<open>ValueError\<close> that \<open>int(s)\<close> raises; \<open>AttributeError\<close> is raised
  by \<open>.get\<close> or \<open>.items\<close> on a value that is not a dictionary; \<open>DecodeError\<close> stands for
  what reading and decoding a file can raise.
\<close>

definition new_PageUnit :: "int option PageUnit" where
  "new_PageUnit = \<lparr>page_done = False, start_problem = None, end_problem = None, problems = []\<rparr>"

definition new_AppState :: "int option AppState" where
  "new_AppState = \<lparr>book_name = '''', start_page = None, end_page = None, pages = []\<rparr>"

section \<open>Range application\<close>

text \<open>
  \<open>apply_problem_range\<close> changes the unit in place and may raise. The model returns the
  exception raised, if any, together with the unit as the call leaves it, so that what a
  failed call does to the unit is part of the result.
\<close>

fun fill_missing :: "int list \<Rightarrow> (string \<times> Problem) list \<Rightarrow> (string \<times> Problem) list" where
  "fill_missing [] d = d"
| "fill_missing (i # r) d =
     (let pk = str_int i in
      fill_missing r
        (if \<not> dict_has d pk then AList.update pk \<lparr>status = STATUS_DONE, memo = ''''\<rparr> d
         else d))"

fun drop_outside ::
  "string list \<Rightarrow> string set \<Rightarrow> (string \<times> Problem) list \<Rightarrow> (string \<times> Problem) list" where
  "drop_outside [] keep d = d"
| "drop_outside (pk # r) keep d =
     drop_outside r keep (if pk \<notin> keep then AList.delete pk d else d)"

definition apply_problem_range ::
  "int option PageUnit \<Rightarrow> int \<Rightarrow> int \<Rightarrow> error option \<times> int option PageUnit" where
  "apply_problem_range unit start_n end_n =
     (if start_n \<le> 0 \<or> end_n \<le> 0 then (Some (ValueError MSG_BOUND), unit)
      else
        let (start_n, end_n) = (if start_n > end_n then (end_n, start_n) else (start_n, end_n))
        in
          if end_n - start_n > 500 then (Some (ValueError MSG_SPAN), unit)
          else
            let unit = unit\<lparr>start_problem := Some start_n, end_problem := Some end_n\<rparr>;
                keep = set (map str_int [start_n..end_n]);
                unit = unit\<lparr>problems := fill_missing [start_n..end_n] (problems unit)\<rparr>;
                unit = unit\<lparr>problems :=
                         drop_outside (map fst (problems unit)) keep (problems unit)\<rparr>
            in (None, unit))"

section \<open>Page-range initialisation\<close>

definition clamp_pages :: "int \<Rightarrow> int \<Rightarrow> int \<times> int" where
  "clamp_pages sp ep = (if sp \<le> ep then (sp, ep) else (ep, sp))"

fun add_pages ::
  "int list \<Rightarrow> (string \<times> int option PageUnit) list \<Rightarrow> (string \<times> int option PageUnit) list" where
  "add_pages [] d = d"
| "add_pages (p # r) d =
     (let k = str_int p in
      add_pages r (if \<not> dict_has d k then AList.update k new_PageUnit d else d))"

definition ensure_pages_initialized :: "int option AppState \<Rightarrow> int option AppState" where
  "ensure_pages_initialized state =
     (case (start_page state, end_page state) of
        (Some sp0, Some ep0) \<Rightarrow>
          let (sp, ep) = clamp_pages sp0 ep0;
              state = state\<lparr>start_page := Some sp, end_page := Some ep\<rparr>
          in state\<lparr>pages := add_pages [sp..ep] (pages state)\<rparr>
      | _ \<Rightarrow> state)"

section \<open>Summary\<close>

text \<open>
  \<open>sorted(items, key=lambda kv: int(kv[0]))\<close> computes the key of every item first, so
  the first key that \<open>int\<close> refuses raises; otherwise the sort is stable, as \<open>sort_key\<close> is.
\<close>

definition sorted_items :: "(string \<times> Problem) list \<Rightarrow> error + (string \<times> Problem) list" where
  "sorted_items items =
     (case find (\<lambda>kv. py_int (fst kv) = None) items of
        Some kv \<Rightarrow> Inl (InvalidLiteral (fst kv))
      | None \<Rightarrow> Inr (sort_key (\<lambda>kv. the (py_int (fst kv))) items))"

definition tag :: "int \<Rightarrow> string \<Rightarrow> string" where
  "tag p num = ''[p.'' @ str_int p @ '' '' @ num @ TAG_CLOSE"

type_synonym sections = "string list \<times> string list \<times> string list"

fun add_problem :: "int \<Rightarrow> string \<times> Problem \<Rightarrow> sections \<Rightarrow> sections" where
  "add_problem p (num, pr) (wrong, fixed, ques) =
     (if status pr = STATUS_WRONG then (wrong @ [tag p num], fixed, ques)
      else if status pr = STATUS_FIXED then (wrong, fixed @ [tag p num], ques)
      else if status pr = STATUS_QUESTION then
        (let memo = strip (if memo pr \<noteq> [] then memo pr else '''') in
         (wrong, fixed,
          ques @ [if memo \<noteq> [] then tag p num @ '' '' @ memo else tag p num @ NO_MEMO]))
      else (wrong, fixed, ques))"

fun summary_pages ::
  "(string \<times> int option PageUnit) list \<Rightarrow> int list \<Rightarrow> sections \<Rightarrow> error + sections" where
  "summary_pages pgs [] acc = Inr acc"
| "summary_pages pgs (p # r) acc =
     (case map_of pgs (str_int p) of
        None \<Rightarrow> summary_pages pgs r acc
      | Some unit \<Rightarrow>
          if problems unit = [] then summary_pages pgs r acc
          else
            (case sorted_items (problems unit) of
               Inl e \<Rightarrow> Inl e
             | Inr items \<Rightarrow> summary_pages pgs r (foldl (\<lambda>a kv. add_problem p kv a) acc items)))"

fun join :: "string \<Rightarrow> string list \<Rightarrow> string" where
  "join sep [] = ''''"
| "join sep [x] = x"
| "join sep (x # y # r) = x @ sep @ join sep (y # r)"

definition NL :: string where
  "NL = [CHR 0x0A]"

definition render :: "string \<Rightarrow> int \<Rightarrow> int \<Rightarrow> string \<Rightarrow> sections \<Rightarrow> string" where
  "render book sp ep today acc =
     (case acc of (wrong, fixed, ques) \<Rightarrow>
        join NL
          [HDR_TITLE,
           HDR_BOOK @ (if book \<noteq> [] then book else NO_BOOK),
           HDR_RANGE @ str_int sp @ '' ~ p.'' @ str_int ep,
           HDR_DATE @ today,
           '''',
           HDR_WRONG,
           if wrong \<noteq> [] then join '', '' wrong else NONE_TEXT,
           '''',
           HDR_FIXED,
           if fixed \<noteq> [] then join '', '' fixed else NONE_TEXT,
           '''',
           HDR_QUES,
           if ques \<noteq> [] then join NL ques else NONE_TEXT])"

text \<open>
  \<open>today\<close> is the current date as \<open>strftime('%Y-%m-%d')\<close> prints it, an input of the model.
\<close>

definition build_summary :: "int option AppState \<Rightarrow> string \<Rightarrow> error + string" where
  "build_summary state today =
     (case (start_page state, end_page state) of
        (Some sp0, Some ep0) \<Rightarrow>
          let (sp, ep) = clamp_pages sp0 ep0 in
          (case summary_pages (pages state) [sp..ep] ([], [], []) of
             Inl e \<Rightarrow> Inl e
           | Inr acc \<Rightarrow> Inr (render (book_name state) sp ep today acc))
      | _ \<Rightarrow> Inr MSG_NO_RANGE)"

section \<open>Persistence\<close>

subsection \<open>Documents and the disk\<close>

text \<open>
  The JSON codec is the standard library's. A file is modelled by what reading it gives:
  \<open>Unreadable\<close> when it is not UTF-8 text, \<open>Malformed\<close> when it is text that \<open>json.load\<close>
  refuses, and \<open>Document j\<close> when it is the JSON text of \<open>j\<close>; \<open>json.dump\<close> writes the
  document of the value it is given. An object is the list of its members as written, and
  \<open>json.load\<close> builds a dictionary from each (\<open>loaded\<close>), the last of several members with
  one name winning. A float is represented by its \<open>repr\<close>.
\<close>

datatype json =
  JNull
| JBool bool
| JInt int
| JFloat string
| JStr string
| JArr "json list"
| JObj "(string \<times> json) list"

datatype file_content = Unreadable | Malformed | Document json

record disk =
  state_file :: "file_content option"
  bak_file :: "file_content option"

fun loaded :: "json \<Rightarrow> json" where
  "loaded (JArr xs) = JArr (map loaded xs)"
| "loaded (JObj ps) = JObj (dict (map (\<lambda>(k, v). (k, loaded v)) ps))"
| "loaded v = v"

definition json_load :: "file_content \<Rightarrow> error + json" where
  "json_load c = (case c of Document j \<Rightarrow> Inr (loaded j) | _ \<Rightarrow> Inl DecodeError)"

subsection \<open>Coercions\<close>

text \<open>
  \<open>bool(v)\<close> and \<open>v or {}\<close> go by the truth value of \<open>v\<close>. \<open>str(v)\<close> is written out for the
  scalars; for a list or a dictionary it is the interpreter's \<open>repr\<close>, which the functions
  below take as the parameter \<open>R\<close>.
\<close>

definition truthy :: "json \<Rightarrow> bool" where
  "truthy v =
     (case v of
        JNull \<Rightarrow> False
      | JBool b \<Rightarrow> b
      | JInt i \<Rightarrow> i \<noteq> 0
      | JFloat r \<Rightarrow> r \<noteq> ''0.0'' \<and> r \<noteq> ''-0.0''
      | JStr s \<Rightarrow> s \<noteq> []
      | JArr xs \<Rightarrow> xs \<noteq> []
      | JObj d \<Rightarrow> d \<noteq> [])"

definition py_str :: "(json \<Rightarrow> string) \<Rightarrow> json \<Rightarrow> string" where
  "py_str R v =
     (case v of
        JNull \<Rightarrow> ''None''
      | JBool b \<Rightarrow> (if b then ''True'' else ''False'')
      | JInt i \<Rightarrow> str_int i
      | JFloat r \<Rightarrow> r
      | JStr s \<Rightarrow> s
      | _ \<Rightarrow> R v)"

definition or_empty :: "json \<Rightarrow> json" where
  "or_empty v = (if truthy v then v else JObj [])"

definition get :: "json \<Rightarrow> string \<Rightarrow> json \<Rightarrow> error + json" where
  \<comment> \<open>\<open>v.get(k, dflt)\<close>\<close>
  "get v k dflt =
     (case v of
        JObj d \<Rightarrow> Inr (case map_of d k of None \<Rightarrow> dflt | Some x \<Rightarrow> x)
      | _ \<Rightarrow> Inl AttributeError)"

definition items :: "json \<Rightarrow> error + (string \<times> json) list" where
  \<comment> \<open>\<open>v.items()\<close>\<close>
  "items v = (case v of JObj d \<Rightarrow> Inr d | _ \<Rightarrow> Inl AttributeError)"

definition and_then :: "'e + 'a \<Rightarrow> ('a \<Rightarrow> 'e + 'b) \<Rightarrow> 'e + 'b" where
  "and_then r f = (case r of Inl e \<Rightarrow> Inl e | Inr x \<Rightarrow> f x)"

subsection \<open>\<open>load_state\<close>\<close>

definition load_problem :: "(json \<Rightarrow> string) \<Rightarrow> json \<Rightarrow> error + Problem" where
  "load_problem R v =
     and_then (get v ''status'' (JStr STATUS_DONE)) (\<lambda>s.
     and_then (get v ''memo'' (JStr '''')) (\<lambda>m.
     Inr \<lparr>status = py_str R s, memo = py_str R m\<rparr>))"

fun load_problems ::
  "(json \<Rightarrow> string) \<Rightarrow> (string \<times> json) list \<Rightarrow> (string \<times> Problem) list
     \<Rightarrow> error + (string \<times> Problem) list" where
  "load_problems R [] d = Inr d"
| "load_problems R ((k, v) # r) d =
     and_then (load_problem R v) (\<lambda>pr.
     load_problems R r (AList.update (py_str R (JStr k)) pr d))"

definition load_unit :: "(json \<Rightarrow> string) \<Rightarrow> json \<Rightarrow> error + json PageUnit" where
  "load_unit R pu =
     and_then (get pu ''done'' (JBool False)) (\<lambda>dn.
     and_then (get pu ''start_problem'' JNull) (\<lambda>sp.
     and_then (get pu ''end_problem'' JNull) (\<lambda>ep.
     and_then (get pu ''problems'' (JObj [])) (\<lambda>prs.
     and_then (items (or_empty prs)) (\<lambda>kvs.
     and_then (load_problems R kvs []) (\<lambda>d.
     Inr \<lparr>page_done = truthy dn, start_problem = sp, end_problem = ep, problems = d\<rparr>))))))"

fun load_pages ::
  "(json \<Rightarrow> string) \<Rightarrow> (string \<times> json) list \<Rightarrow> (string \<times> json PageUnit) list
     \<Rightarrow> error + (string \<times> json PageUnit) list" where
  "load_pages R [] d = Inr d"
| "load_pages R ((pk, pu) # r) d =
     and_then (load_unit R pu) (\<lambda>unit.
     load_pages R r (AList.update (py_str R (JStr pk)) unit d))"

definition load_raw :: "(json \<Rightarrow> string) \<Rightarrow> json \<Rightarrow> error + json AppState" where
  \<comment> \<open>the body of the \<open>try\<close> after \<open>json.load\<close>\<close>
  "load_raw R raw =
     and_then (get raw ''book_name'' (JStr '''')) (\<lambda>b.
     and_then (get raw ''start_page'' JNull) (\<lambda>sp.
     and_then (get raw ''end_page'' JNull) (\<lambda>ep.
     and_then (get raw ''pages'' (JObj [])) (\<lambda>pgs.
     and_then (items (or_empty pgs)) (\<lambda>kvs.
     and_then (load_pages R kvs []) (\<lambda>d.
     Inr \<lparr>book_name = py_str R b, start_page = sp, end_page = ep, pages = d\<rparr>))))))"

definition load_state :: "(json \<Rightarrow> string) \<Rightarrow> disk \<Rightarrow> json AppState option" where
  "load_state R dsk =
     (case state_file dsk of
        None \<Rightarrow> None
      | Some c \<Rightarrow>
          (case json_load c of
             Inl e \<Rightarrow> None
           | Inr raw \<Rightarrow> (case load_raw R raw of Inl e \<Rightarrow> None | Inr stt \<Rightarrow> Some stt)))"

subsection \<open>\<open>save_state\<close>\<close>







section \<open>Auxiliary definitions for the proofs\<close>

definition digits_value :: "nat \<Rightarrow> string \<Rightarrow> nat" where
  \<comment> \<open>the number a run of digits adds to \<open>acc\<close>\<close>
  "digits_value acc s = foldl (\<lambda>a c. 10 * a + digit_val c) acc s"

definition synced :: "(string \<times> Problem) list \<Rightarrow> int \<Rightarrow> int \<Rightarrow> (string \<times> Problem) list" where
  \<comment> \<open>what the two loops of \<open>apply_problem_range\<close> leave of a dictionary\<close>
  "synced d lo hi =
     filter (\<lambda>kv. fst kv \<in> str_int ` {lo..hi}) (fill_missing [lo..hi] d)"

definition unit0 :: "int option PageUnit" where
  \<comment> \<open>a page with problems 1 to 4, used as a concrete input\<close>
  "unit0 =
     \<lparr>page_done = True, start_problem = Some 1, end_problem = Some 4,
      problems =
        [(''1'', \<lparr>status = STATUS_WRONG, memo = ''sign''\<rparr>),
         (''2'', \<lparr>status = STATUS_DONE, memo = ''''\<rparr>),
         (''3'', \<lparr>status = STATUS_QUESTION, memo = ''why''\<rparr>),
         (''4'', \<lparr>status = STATUS_FIXED, memo = ''''\<rparr>)]\<rparr>"

definition state0 :: "int option AppState" where
  \<comment> \<open>bounds out of order, one page outside them, one inside\<close>
  "state0 =
     \<lparr>book_name = ''RPM'', start_page = Some 3, end_page = Some 1,
      pages = [(''7'', unit0), (''2'', unit0\<lparr>page_done := False\<rparr>)]\<rparr>"

section \<open>The summary, as a list of entries\<close>









definition reported :: "string \<Rightarrow> bool" where
  "reported s = (s = STATUS_WRONG \<or> s = STATUS_FIXED \<or> s = STATUS_QUESTION)"

definition without_unreported :: "int option AppState \<Rightarrow> int option AppState" where
  \<comment> \<open>the state with every problem of another status taken out\<close>
  "without_unreported state =
     state\<lparr>pages :=
       map (\<lambda>(pk, unit).
              (pk, unit\<lparr>problems := filter (\<lambda>kv. reported (status (snd kv))) (problems unit)\<rparr>))
         (pages state)\<rparr>"



definition summary_state :: "int option AppState" where
  \<comment> \<open>one page with a done problem, a problem of an unknown status and a wrong one\<close>
  "summary_state =
     \<lparr>book_name = ''RPM'', start_page = Some 1, end_page = Some 1,
      pages =
        [(''1'', \<lparr>page_done = False, start_problem = Some 1, end_problem = Some 3,
                  problems =
                    [(''1'', \<lparr>status = STATUS_DONE, memo = ''kept''\<rparr>),
                     (''2'', \<lparr>status = ''banana'', memo = ''kept''\<rparr>),
                     (''3'', \<lparr>status = STATUS_WRONG, memo = ''''\<rparr>)]\<rparr>)]\<rparr>"

section \<open>States as \<open>load_state\<close> returns them\<close>




definition empty_disk :: disk where
  "empty_disk = \<lparr>state_file = None, bak_file = None\<rparr>"

section \<open>Documents \<open>load_state\<close> can read\<close>

text \<open>
  \<open>load_state\<close> calls \<open>.get\<close> on the document, on every page unit and on every problem,
  and \<open>.items\<close> on the values of \<open>pages\<close> and \<open>problems\<close> unless they are false in a
  condition. \<open>readable\<close> says that all of these are objects.
\<close>

definition is_object :: "json \<Rightarrow> bool" where
  "is_object v = (case v of JObj d \<Rightarrow> True | _ \<Rightarrow> False)"

definition field :: "(string \<times> json) list \<Rightarrow> string \<Rightarrow> json \<Rightarrow> json" where
  "field d k dflt = (case map_of d k of None \<Rightarrow> dflt | Some v \<Rightarrow> v)"

definition unit_readable :: "json \<Rightarrow> bool" where
  "unit_readable pu =
     (case pu of
        JObj d \<Rightarrow>
          (case or_empty (field d ''problems'' (JObj [])) of
             JObj prs \<Rightarrow> list_all (\<lambda>kv. is_object (snd kv)) prs
           | _ \<Rightarrow> False)
      | _ \<Rightarrow> False)"

definition readable :: "json \<Rightarrow> bool" where
  "readable raw =
     (case raw of
        JObj d \<Rightarrow>
          (case or_empty (field d ''pages'' (JObj [])) of
             JObj pgs \<Rightarrow> list_all (\<lambda>kv. unit_readable (snd kv)) pgs
           | _ \<Rightarrow> False)
      | _ \<Rightarrow> False)"

definition on_disk :: "json \<Rightarrow> disk" where
  \<comment> \<open>a disk whose state file holds the document\<close>
  "on_disk j = \<lparr>state_file = Some (Document j), bak_file = None\<rparr>"

definition bare_doc :: "string \<Rightarrow> string \<Rightarrow> json" where
  \<comment> \<open>one page with one problem, and no other member anywhere\<close>
  "bare_doc pk k = JObj [(''pages'', JObj [(pk, JObj [(''problems'', JObj [(k, JObj [])])])])]"

definition status_doc :: "string \<Rightarrow> json" where
  \<comment> \<open>page 1 with problem 1, whose status is \<open>s\<close>\<close>
  "status_doc s =
     JObj [(''pages'',
            JObj [(''1'', JObj [(''problems'', JObj [(''1'', JObj [(''status'', JStr s)])])])])]"

section \<open>Integers and their decimal strings\<close>

lemma digit_char_props: "d < 10 \<Longrightarrow> is_digit (digit_char d) \<and> digit_val (digit_char d) = d"
proof -
  assume "d < 10"
  then have "d \<in> {0,1,2,3,4,5,6,7,8,9}" by auto
  then show ?thesis
    by (auto simp: digit_char_def is_digit_def digit_val_def)
qed

lemma str_nat_digits: "list_all is_digit (str_nat n)"
proof (induction n rule: str_nat.induct)
  case (1 n)
  show ?case
  proof (cases "n < 10")
    case True
    then show ?thesis by (simp add: str_nat.simps [of n] digit_char_props)
  next
    case False
    with 1 show ?thesis by (simp add: str_nat.simps [of n] digit_char_props)
  qed
qed

lemma str_nat_nonempty: "str_nat n \<noteq> []"
  by (subst str_nat.simps) simp

lemma parse_digits_all: "list_all is_digit s \<Longrightarrow> parse_digits acc s = Some (digits_value acc s)"
  by (induction acc s rule: parse_digits.induct) (auto simp: digits_value_def)

lemma digits_value_str_nat: "digits_value 0 (str_nat n) = n"
proof (induction n rule: str_nat.induct)
  case (1 n)
  show ?case
  proof (cases "n < 10")
    case True
    then show ?thesis by (simp add: str_nat.simps [of n] digit_char_props digits_value_def)
  next
    case False
    with 1 have "digits_value 0 (str_nat (n div 10)) = n div 10" by simp
    with False show ?thesis
      by (simp add: str_nat.simps [of n] digit_char_props digits_value_def)
  qed
qed

lemma parse_unsigned_str_nat: "parse_unsigned (str_nat n) = Some n"
proof -
  obtain c cs where s: "str_nat n = c # cs"
    using str_nat_nonempty [of n] by (cases "str_nat n") auto
  have d: "is_digit c" "list_all is_digit cs"
    using str_nat_digits [of n] by (simp_all add: s)
  have "digits_value (digit_val c) cs = digits_value 0 (c # cs)"
    by (simp add: digits_value_def)
  then show ?thesis
    using d digits_value_str_nat [of n] by (simp add: parse_unsigned_def s parse_digits_all)
qed

lemma to_ascii_ascii: "\<forall>c \<in> set s. (of_char c :: nat) < 128 \<Longrightarrow> to_ascii s = s"
  by (induction s) simp_all

lemma is_digit_ascii: "is_digit c \<Longrightarrow> (of_char c :: nat) < 128 \<and> c \<notin> set ASCII_SPACES"
  by (auto simp: is_digit_def ASCII_SPACES_def)

lemma ascii_strip_none:
  assumes "s \<noteq> []" "hd s \<notin> set ASCII_SPACES" "last s \<notin> set ASCII_SPACES"
  shows "ascii_strip s = s"
proof -
  obtain c cs where s: "s = c # cs" using assms(1) by (cases s) auto
  have front: "dropWhile (\<lambda>c. c \<in> set ASCII_SPACES) s = s"
    using assms(2) by (simp add: s)
  obtain d ds where r: "rev s = d # ds" using assms(1) by (cases "rev s") auto
  then have "d = last s" using assms(1) by (metis hd_rev list.sel(1))
  with assms(3) have "d \<notin> set ASCII_SPACES" by simp
  then have "dropWhile (\<lambda>c. c \<in> set ASCII_SPACES) (rev s) = rev s"
    unfolding r by simp
  with front show ?thesis by (simp add: ascii_strip_def)
qed

lemma str_nat_ends: "is_digit (hd (str_nat n)) \<and> is_digit (last (str_nat n))"
  using str_nat_digits [of n] str_nat_nonempty [of n]
  by (cases "str_nat n") (auto simp: list_all_iff)

lemma str_int_ascii: "\<forall>c \<in> set (str_int i). (of_char c :: nat) < 128"
  using str_nat_digits [of "nat i"] str_nat_digits [of "nat (- i)"]
  by (auto simp: str_int_def list_all_iff dest: is_digit_ascii)

lemma str_int_unstripped: "ascii_strip (to_ascii (str_int i)) = str_int i"
proof -
  have t: "to_ascii (str_int i) = str_int i"
    by (rule to_ascii_ascii) (rule str_int_ascii)
  have "str_int i \<noteq> []"
    using str_nat_nonempty by (simp add: str_int_def)
  moreover have "hd (str_int i) \<notin> set ASCII_SPACES"
    using str_nat_ends [of "nat i"] is_digit_ascii [of "hd (str_nat (nat i))"]
    by (simp add: str_int_def ASCII_SPACES_def)
  moreover have "last (str_int i) \<notin> set ASCII_SPACES"
    using str_nat_ends [of "nat i"] str_nat_ends [of "nat (- i)"]
      str_nat_nonempty [of "nat (- i)"]
    by (auto simp: str_int_def dest: is_digit_ascii)
  ultimately show ?thesis unfolding t by (rule ascii_strip_none)
qed

lemma py_int_str_int: "py_int (str_int i) = Some i"
proof (cases "i < 0")
  case True
  then have "ascii_strip (to_ascii (str_int i)) = CHR ''-'' # str_nat (nat (- i))"
    using str_int_unstripped [of i] by (simp add: str_int_def)
  with True show ?thesis
    by (simp add: py_int_def parse_unsigned_str_nat)
next
  case False
  obtain c cs where s: "str_nat (nat i) = c # cs"
    using str_nat_nonempty [of "nat i"] by (cases "str_nat (nat i)") auto
  have st: "ascii_strip (to_ascii (str_int i)) = c # cs"
    using False str_int_unstripped [of i] by (simp add: str_int_def s)
  have c: "is_digit c" using str_nat_ends [of "nat i"] by (simp add: s)
  then have ne: "c \<noteq> CHR ''-''" "c \<noteq> CHR ''+''" by (auto simp: is_digit_def)
  have pu: "parse_unsigned (c # cs) = Some (nat i)"
    using parse_unsigned_str_nat [of "nat i"] by (simp only: s)
  have "py_int (str_int i) = map_option int (parse_unsigned (c # cs))"
    unfolding py_int_def st using ne by simp
  then show ?thesis using False by (simp only: pu) simp
qed

text \<open>
  Some strings \<open>int\<close> reads and refuses: U+001C before the digit 3 is refused, though
  \<open>str.strip\<close> removes it; the Arabic-Indic digit three alone gives 3; a no-break space
  after \<open>1_000\<close> is dropped; a doubled underscore is refused.
\<close>

lemma py_int_examples:
  "py_int ([CHR 0x1C] @ ''3'') = None"
  "strip ([CHR 0x1C] @ ''3'') = ''3''"
  "py_int [CHR 0xD9, CHR 0xA3] = Some 3"
  "py_int ('' 1_000'' @ [CHR 0xC2, CHR 0xA0]) = Some 1000"
  "py_int ''-03'' = Some (- 3)"
  "py_int ''1__0'' = None"
  "py_int [] = None"
  by code_simp+

lemma str_int_inj: "str_int i = str_int j \<Longrightarrow> i = j"
proof -
  assume "str_int i = str_int j"
  then have "py_int (str_int i) = py_int (str_int j)" by (rule arg_cong)
  then show "i = j" by (simp only: py_int_str_int option.inject)
qed

lemma str_int_image_card: "card (str_int ` A) = card A"
  by (rule card_image) (auto simp: inj_on_def dest: str_int_inj)


text \<open>
  \<open>length s\<close> rounds are enough: what \<open>lstrip\<close> returns starts with no whitespace
  character, and what \<open>rstrip\<close> returns ends with none.
\<close>

lemma strip_n_done:
  "[] \<notin> set W \<Longrightarrow> length s \<le> n \<Longrightarrow>
     find (\<lambda>w. take (length w) (strip_n n W s) = w) W = None"
proof (induction n arbitrary: s)
  case 0
  then show ?case by (auto simp: find_None_iff)
next
  case (Suc n)
  show ?case
  proof (cases "find (\<lambda>w. take (length w) s = w) W")
    case None
    then show ?thesis by simp
  next
    case (Some w)
    then have "w \<in> set W" and p: "take (length w) s = w"
      by (auto simp: find_Some_iff)
    with Suc.prems(1) have "w \<noteq> []" by auto
    with p have "s \<noteq> []" by auto
    with \<open>w \<noteq> []\<close> Suc.prems(2) have "length (drop (length w) s) \<le> n"
      by (cases w; cases s) auto
    from Suc.IH [OF Suc.prems(1) this] Some show ?thesis by simp
  qed
qed

lemma lstrip_done: "find (\<lambda>w. take (length w) (lstrip s) = w) WHITESPACE = None"
  unfolding lstrip_def by (rule strip_n_done) (simp_all add: WHITESPACE_def)

lemma rstrip_done: "find (\<lambda>w. take (length w) (rev (rstrip s)) = w) (map rev WHITESPACE) = None"
proof -
  have "[] \<notin> set (map rev WHITESPACE)" by (simp add: WHITESPACE_def)
  then have "find (\<lambda>w. take (length w) (strip_n (length (rev s)) (map rev WHITESPACE) (rev s)) = w)
      (map rev WHITESPACE) = None"
    by (rule strip_n_done) simp
  then show ?thesis by (simp add: rstrip_def)
qed


section \<open>Properties of range application\<close>

lemma dict_has_iff: "dict_has d k \<longleftrightarrow> k \<in> fst ` set d"
  by (simp add: dict_has_def map_of_eq_None_iff)

lemma fill_missing_map_of:
  "map_of (fill_missing r d) k =
     (case map_of d k of
        Some pr \<Rightarrow> Some pr
      | None \<Rightarrow> if k \<in> str_int ` set r then Some \<lparr>status = STATUS_DONE, memo = ''''\<rparr> else None)"
proof (induction r arbitrary: d)
  case Nil
  show ?case by (simp split: option.split)
next
  case (Cons i r)
  show ?case
    by (auto simp: Cons.IH Let_def dict_has_def update_conv' split: option.split)
qed

lemma fill_missing_distinct:
  "distinct (map fst d) \<Longrightarrow> distinct (map fst (fill_missing r d))"
  by (induction r arbitrary: d) (simp_all add: Let_def distinct_update)

lemma drop_outside_eq:
  "drop_outside r keep d = filter (\<lambda>kv. fst kv \<in> set r \<longrightarrow> fst kv \<in> keep) d"
proof (induction r arbitrary: d)
  case Nil
  show ?case by simp
next
  case (Cons pk r)
  have "AList.delete pk d = filter (\<lambda>kv. pk \<noteq> fst kv) d"
    by (simp add: AList.delete_eq case_prod_unfold)
  then show ?case
    by (auto simp: Cons.IH intro!: filter_cong)
qed

lemma drop_outside_keys:
  "drop_outside (map fst d) keep d = filter (\<lambda>kv. fst kv \<in> keep) d"
  unfolding drop_outside_eq by (rule filter_cong) auto

lemma map_of_filter_keys:
  "map_of (filter (\<lambda>kv. fst kv \<in> K) d) k = (if k \<in> K then map_of d k else None)"
  by (induction d) auto

lemma distinct_filter_keys:
  "distinct (map fst d) \<Longrightarrow> distinct (map fst (filter P d))"
  by (induction d) auto

lemma apply_problem_range_ok:
  assumes "0 < s" "0 < e" "\<bar>e - s\<bar> \<le> 500"
  shows "apply_problem_range u s e =
           (None, u\<lparr>start_problem := Some (min s e), end_problem := Some (max s e),
                    problems := synced (problems u) (min s e) (max s e)\<rparr>)"
proof (cases "s > e")
  case True
  then have "min s e = e" "max s e = s" by simp_all
  with True assms show ?thesis
    by (simp add: apply_problem_range_def Let_def drop_outside_keys synced_def)
next
  case False
  then have "min s e = s" "max s e = e" by simp_all
  with False assms show ?thesis
    by (simp add: apply_problem_range_def Let_def drop_outside_keys synced_def)
qed

lemma synced_map_of:
  "map_of (synced d lo hi) k =
     (if k \<in> str_int ` {lo..hi}
      then (case map_of d k of
              Some pr \<Rightarrow> Some pr
            | None \<Rightarrow> Some \<lparr>status = STATUS_DONE, memo = ''''\<rparr>)
      else None)"
  by (simp add: synced_def map_of_filter_keys fill_missing_map_of split: option.split)

lemma synced_keys: "fst ` set (synced d lo hi) = str_int ` {lo..hi}"
proof -
  have "fst ` set (synced d lo hi) = dom (map_of (synced d lo hi))"
    by (simp add: dom_map_of_conv_image_fst)
  also have "\<dots> = str_int ` {lo..hi}"
    by (auto simp: dom_def synced_map_of split: option.splits if_splits)
  finally show ?thesis .
qed

lemma synced_distinct: "distinct (map fst d) \<Longrightarrow> distinct (map fst (synced d lo hi))"
  by (simp add: synced_def distinct_filter_keys fill_missing_distinct)

lemma synced_length:
  assumes "distinct (map fst d)" "lo \<le> hi"
  shows "length (synced d lo hi) = nat (hi - lo + 1)"
proof -
  have "length (synced d lo hi) = card (set (map fst (synced d lo hi)))"
    using distinct_card [OF synced_distinct [OF assms(1), of lo hi]] by simp
  also have "\<dots> = card (str_int ` {lo..hi})" by (simp add: synced_keys)
  also have "\<dots> = nat (hi - lo + 1)" using assms(2) by (simp add: str_int_image_card)
  finally show ?thesis .
qed


text \<open>
  The keys \<open>apply_problem_range\<close> leaves are all decimal strings, which \<open>int\<close> reads back.
\<close>

lemma synced_keys_numeric: "list_all (\<lambda>kv. py_int (fst kv) \<noteq> None) (synced d lo hi)"
proof -
  have "py_int (fst kv) \<noteq> None" if "kv \<in> set (synced d lo hi)" for kv
  proof -
    from that have "fst kv \<in> fst ` set (synced d lo hi)" by (rule imageI)
    then obtain i where "fst kv = str_int i" by (auto simp: synced_keys)
    then show ?thesis by (simp add: py_int_str_int)
  qed
  then show ?thesis by (simp add: list_all_iff)
qed


section \<open>Claims about range application\<close>

text \<open>
  Claim C1. For every page unit and every requested pair of bounds that are both positive
  and at most 500 apart, \<open>apply_problem_range\<close> raises nothing, and afterwards: the
  stored bounds are the requested ones, exchanged if the first exceeds the second; the
  done flag is as before; the keys of the problems dictionary are exactly the decimal
  strings of the numbers from the stored start to the stored end, and they stay
  distinct; a number of the range with no entry before has a new problem with the done
  status and an empty memo, and one with an entry keeps that entry, status and memo;
  no key outside the range has an entry any more.
\<close>

theorem apply_problem_range_success:
  assumes "0 < start_n" and "0 < end_n" and "\<bar>end_n - start_n\<bar> \<le> 500"
  shows
    "let (lo, hi) = (if start_n > end_n then (end_n, start_n) else (start_n, end_n));
         (raised, unit') = apply_problem_range unit start_n end_n
     in raised = None
        \<and> start_problem unit' = Some lo \<and> end_problem unit' = Some hi
        \<and> page_done unit' = page_done unit
        \<and> fst ` set (problems unit') = str_int ` {lo..hi}
        \<and> (distinct (map fst (problems unit)) \<longrightarrow> distinct (map fst (problems unit')))
        \<and> (\<forall>i \<in> {lo..hi}.
              map_of (problems unit') (str_int i) =
                (case map_of (problems unit) (str_int i) of
                   None \<Rightarrow> Some \<lparr>status = STATUS_DONE, memo = ''''\<rparr>
                 | Some pr \<Rightarrow> Some pr))
        \<and> (\<forall>k. k \<notin> str_int ` {lo..hi} \<longrightarrow> map_of (problems unit') k = None)"
proof -
  have sw: "(if start_n > end_n then (end_n, start_n) else (start_n, end_n))
              = (min start_n end_n, max start_n end_n)"
    by auto
  show ?thesis
    unfolding sw apply_problem_range_ok [OF assms]
    by (simp add: synced_keys synced_distinct synced_map_of split: option.split)
qed

theorem apply_problem_range_success_witness:
  "(0::int) < 5 \<and> (0::int) < 3 \<and> \<bar>3 - 5 :: int\<bar> \<le> 500
   \<and> apply_problem_range unit0 5 3 =
       (None,
        \<lparr>page_done = True, start_problem = Some 3, end_problem = Some 5,
         problems =
           [(''3'', \<lparr>status = STATUS_QUESTION, memo = ''why''\<rparr>),
            (''4'', \<lparr>status = STATUS_FIXED, memo = ''''\<rparr>),
            (''5'', \<lparr>status = STATUS_DONE, memo = ''''\<rparr>)]\<rparr>)
   \<and> map_of (problems (snd (apply_problem_range unit0 5 3))) ''3''
       = Some \<lparr>status = STATUS_QUESTION, memo = ''why''\<rparr>
   \<and> map_of (problems (snd (apply_problem_range unit0 5 3))) ''5''
       = Some \<lparr>status = STATUS_DONE, memo = ''''\<rparr>
   \<and> map_of (problems (snd (apply_problem_range unit0 5 3))) ''1'' = None"
proof -
  have ev: "apply_problem_range unit0 5 3 =
       (None,
        \<lparr>page_done = True, start_problem = Some 3, end_problem = Some 5,
         problems =
           [(''3'', \<lparr>status = STATUS_QUESTION, memo = ''why''\<rparr>),
            (''4'', \<lparr>status = STATUS_FIXED, memo = ''''\<rparr>),
            (''5'', \<lparr>status = STATUS_DONE, memo = ''''\<rparr>)]\<rparr>)"
    by code_simp
  have s3: "str_int 3 = ''3''" and s5: "str_int 5 = ''5''" and s1: "str_int 1 = ''1''"
    by code_simp+
  have r: "(3::int) \<in> {3..5}" "(5::int) \<in> {3..5}" by simp_all
  have o: "''1'' \<notin> str_int ` {3..5}"
  proof
    assume "''1'' \<in> str_int ` {3..5}"
    then obtain i where "i \<in> {3..5}" "str_int i = str_int 1" by (auto simp: s1)
    then show False by (auto dest: str_int_inj)
  qed
  have h: "(0::int) < 5" "(0::int) < 3" "\<bar>3 - 5 :: int\<bar> \<le> 500" by simp_all
  note t = apply_problem_range_success [OF h, of unit0]
  from t r o show ?thesis
    unfolding ev by (simp add: s3 s5 unit0_def)
qed


text \<open>
  Claim C2. For every page unit and every requested pair of bounds,
  \<open>apply_problem_range\<close> raises its \<open>ValueError\<close> exactly when a bound is not positive
  or the bounds are more than 500 apart, it returns normally exactly otherwise, and a
  call that raises leaves the page unit as it was, bounds and problems alike.
\<close>

theorem apply_problem_range_raises_iff:
  "((\<exists>m. fst (apply_problem_range unit start_n end_n) = Some (ValueError m))
      \<longleftrightarrow> start_n \<le> 0 \<or> end_n \<le> 0 \<or> 500 < \<bar>end_n - start_n\<bar>)
   \<and> (fst (apply_problem_range unit start_n end_n) = None
      \<longleftrightarrow> \<not> (start_n \<le> 0 \<or> end_n \<le> 0 \<or> 500 < \<bar>end_n - start_n\<bar>))
   \<and> (fst (apply_problem_range unit start_n end_n) \<noteq> None
      \<longrightarrow> snd (apply_problem_range unit start_n end_n) = unit)"
  by (auto simp: apply_problem_range_def Let_def)

theorem apply_problem_range_raises_iff_witness:
  "fst (apply_problem_range unit0 0 7) = Some (ValueError MSG_BOUND)
   \<and> snd (apply_problem_range unit0 0 7) = unit0
   \<and> fst (apply_problem_range unit0 502 1) = Some (ValueError MSG_SPAN)
   \<and> snd (apply_problem_range unit0 502 1) = unit0
   \<and> fst (apply_problem_range unit0 1 501) = None"
proof -
  have a: "fst (apply_problem_range unit0 0 7) = Some (ValueError MSG_BOUND)"
    and b: "fst (apply_problem_range unit0 502 1) = Some (ValueError MSG_SPAN)"
    by (simp_all add: apply_problem_range_def)
  from apply_problem_range_raises_iff [of unit0 0 7]
    apply_problem_range_raises_iff [of unit0 502 1]
    apply_problem_range_raises_iff [of unit0 1 501]
  show ?thesis by (simp add: a b)
qed

text \<open>
  Claim C3 says that an accepted range leaves at most 500 problems. The check compares
  the difference of the bounds with 500, so the range 1 to 501 is accepted, and on a
  new page unit it leaves 501 problems.
\<close>

theorem apply_problem_range_501_entries:
  "fst (apply_problem_range new_PageUnit 1 501) = None
   \<and> length (problems (snd (apply_problem_range new_PageUnit 1 501))) = 501"
proof -
  have h: "(0::int) < 1" "(0::int) < 501" "\<bar>501 - 1 :: int\<bar> \<le> 500" by simp_all
  show ?thesis
    unfolding apply_problem_range_ok [OF h]
    by (simp add: synced_length new_PageUnit_def)
qed


section \<open>Page-range initialisation: properties and claim\<close>

lemma update_absent: "k \<notin> fst ` set d \<Longrightarrow> AList.update k v d = d @ [(k, v)]"
  by (induction d) auto

lemma add_pages_map_of:
  "map_of (add_pages r d) k =
     (case map_of d k of
        Some u \<Rightarrow> Some u
      | None \<Rightarrow> if k \<in> str_int ` set r then Some new_PageUnit else None)"
proof (induction r arbitrary: d)
  case Nil
  show ?case by (simp split: option.split)
next
  case (Cons p r)
  show ?case
    by (auto simp: Cons.IH Let_def dict_has_def update_conv' split: option.split)
qed

lemma add_pages_appends: "\<exists>new. add_pages r d = d @ new"
proof (induction r arbitrary: d)
  case Nil
  show ?case by simp
next
  case (Cons p r)
  show ?case
  proof (cases "dict_has d (str_int p)")
    case True
    with Cons.IH [of d] show ?thesis by (simp add: Let_def)
  next
    case False
    then have "AList.update (str_int p) new_PageUnit d = d @ [(str_int p, new_PageUnit)]"
      by (simp add: update_absent dict_has_iff)
    with False Cons.IH [of "d @ [(str_int p, new_PageUnit)]"] show ?thesis
      by (auto simp: Let_def)
  qed
qed

lemma add_pages_distinct: "distinct (map fst d) \<Longrightarrow> distinct (map fst (add_pages r d))"
  by (induction r arbitrary: d) (simp_all add: Let_def distinct_update)

text \<open>
  Claim C6. When both page bounds are set, \<open>ensure_pages_initialized\<close> stores them in
  ascending order, keeps the book name, and afterwards every page number from the lower
  to the upper bound has a page unit. Every page unit there was before is still there,
  unchanged, whether its key is in the range or not, and in its place in the dictionary;
  a key that had no page unit has a new, default one if it is the decimal string of a
  number in the range, and none otherwise. When a bound is unset, the state is left as
  it was.
\<close>

theorem ensure_pages_initialized_frame:
  "(start_page state = Some a \<and> end_page state = Some b \<longrightarrow>
      (let (sp, ep) = (if a \<le> b then (a, b) else (b, a));
           state' = ensure_pages_initialized state
       in start_page state' = Some sp \<and> end_page state' = Some ep
          \<and> book_name state' = book_name state
          \<and> (\<forall>p \<in> {sp..ep}. \<exists>u. map_of (pages state') (str_int p) = Some u)
          \<and> (\<forall>k u. map_of (pages state) k = Some u \<longrightarrow> map_of (pages state') k = Some u)
          \<and> (\<forall>k. map_of (pages state) k = None \<longrightarrow>
                map_of (pages state') k =
                  (if k \<in> str_int ` {sp..ep} then Some new_PageUnit else None))
          \<and> (\<exists>new. pages state' = pages state @ new)))
   \<and> (start_page state = None \<or> end_page state = None \<longrightarrow>
        ensure_pages_initialized state = state)"
proof (intro conjI impI)
  assume "start_page state = Some a \<and> end_page state = Some b"
  then have e: "ensure_pages_initialized state =
      state\<lparr>start_page := Some (min a b), end_page := Some (max a b),
            pages := add_pages [min a b..max a b] (pages state)\<rparr>"
    by (auto simp: ensure_pages_initialized_def clamp_pages_def min_def max_def)
  have sw: "(if a \<le> b then (a, b) else (b, a)) = (min a b, max a b)" by auto
  show "let (sp, ep) = (if a \<le> b then (a, b) else (b, a));
           state' = ensure_pages_initialized state
       in start_page state' = Some sp \<and> end_page state' = Some ep
          \<and> book_name state' = book_name state
          \<and> (\<forall>p \<in> {sp..ep}. \<exists>u. map_of (pages state') (str_int p) = Some u)
          \<and> (\<forall>k u. map_of (pages state) k = Some u \<longrightarrow> map_of (pages state') k = Some u)
          \<and> (\<forall>k. map_of (pages state) k = None \<longrightarrow>
                map_of (pages state') k =
                  (if k \<in> str_int ` {sp..ep} then Some new_PageUnit else None))
          \<and> (\<exists>new. pages state' = pages state @ new)"
    unfolding sw e
    by (auto simp: add_pages_map_of add_pages_appends split: option.split)
next
  assume "start_page state = None \<or> end_page state = None"
  then show "ensure_pages_initialized state = state"
    by (auto simp: ensure_pages_initialized_def split: option.split)
qed

theorem ensure_pages_initialized_frame_witness:
  "start_page state0 = Some 3 \<and> end_page state0 = Some 1
   \<and> ensure_pages_initialized state0 =
       \<lparr>book_name = ''RPM'', start_page = Some 1, end_page = Some 3,
        pages = [(''7'', unit0), (''2'', unit0\<lparr>page_done := False\<rparr>),
                 (''1'', new_PageUnit), (''3'', new_PageUnit)]\<rparr>
   \<and> map_of (pages (ensure_pages_initialized state0)) ''7'' = Some unit0
   \<and> start_page new_AppState = None
   \<and> ensure_pages_initialized new_AppState = new_AppState"
proof -
  have ev: "ensure_pages_initialized state0 =
       \<lparr>book_name = ''RPM'', start_page = Some 1, end_page = Some 3,
        pages = [(''7'', unit0), (''2'', unit0\<lparr>page_done := False\<rparr>),
                 (''1'', new_PageUnit), (''3'', new_PageUnit)]\<rparr>"
    by code_simp
  from ensure_pages_initialized_frame [of state0 3 1]
    ensure_pages_initialized_frame [of new_AppState 0 0]
  show ?thesis
    unfolding ev by (simp add: state0_def new_AppState_def)
qed


section \<open>Claims about the summary\<close>

text \<open>
  Claim C8. When the start page or the end page is unset, \<open>build_summary\<close> returns
  exactly the message that the range has not been set, whatever the book name, the pages
  and the date.
\<close>

theorem build_summary_no_range:
  "start_page state = None \<or> end_page state = None \<Longrightarrow>
     build_summary state today = Inr MSG_NO_RANGE"
  by (auto simp: build_summary_def split: option.split)

theorem build_summary_no_range_witness:
  "end_page (state0\<lparr>end_page := None\<rparr>) = None
   \<and> build_summary (state0\<lparr>end_page := None\<rparr>) ''2024-05-01'' = Inr MSG_NO_RANGE
   \<and> build_summary new_AppState ''2024-05-01'' = Inr MSG_NO_RANGE"
  using build_summary_no_range [of "state0\<lparr>end_page := None\<rparr>" "''2024-05-01''"]
    build_summary_no_range [of new_AppState "''2024-05-01''"]
  by (simp add: new_AppState_def)


section \<open>The summary: loops and entries agree\<close>

lemma statuses_distinct:
  "STATUS_WRONG \<noteq> STATUS_FIXED" "STATUS_WRONG \<noteq> STATUS_QUESTION"
  "STATUS_FIXED \<noteq> STATUS_QUESTION" "STATUS_DONE \<noteq> STATUS_WRONG"
  "STATUS_DONE \<noteq> STATUS_FIXED" "STATUS_DONE \<noteq> STATUS_QUESTION"
  by (simp_all add: STATUS_WRONG_def STATUS_FIXED_def STATUS_QUESTION_def STATUS_DONE_def)

















section \<open>Statuses the summary passes over\<close>

lemma add_problem_unreported:
  "\<not> reported (status pr) \<Longrightarrow> add_problem p (num, pr) acc = acc"
  by (cases acc) (simp add: reported_def)

lemma foldl_add_problem_reported:
  "foldl (\<lambda>a kv. add_problem p kv a) acc (filter (\<lambda>kv. reported (status (snd kv))) kvs)
     = foldl (\<lambda>a kv. add_problem p kv a) acc kvs"
proof (induction kvs arbitrary: acc)
  case Nil
  show ?case by simp
next
  case (Cons kv kvs)
  obtain num pr where kv: "kv = (num, pr)" by (cases kv)
  show ?case
    unfolding kv using Cons.IH by (simp add: add_problem_unreported)
qed

lemma sorted_items_filter:
  assumes "sorted_items kvs = Inr xs"
  shows "sorted_items (filter P kvs) = Inr (filter P xs)"
proof -
  from assms have n: "find (\<lambda>kv. py_int (fst kv) = None) kvs = None"
    and xs: "xs = sort_key (\<lambda>kv. the (py_int (fst kv))) kvs"
    by (auto simp: sorted_items_def split: option.splits)
  from n have "find (\<lambda>kv. py_int (fst kv) = None) (filter P kvs) = None"
    by (auto simp: find_None_iff)
  then show ?thesis by (simp add: sorted_items_def xs filter_sort)
qed

lemma pages_without_unreported:
  "map_of (pages (without_unreported state)) k =
     map_option
       (\<lambda>unit. unit\<lparr>problems := filter (\<lambda>kv. reported (status (snd kv))) (problems unit)\<rparr>)
       (map_of (pages state) k)"
  by (simp add: without_unreported_def map_of_map)

lemma summary_pages_without_unreported:
  "summary_pages (pages state) ps acc = Inr r \<Longrightarrow>
     summary_pages (pages (without_unreported state)) ps acc = Inr r"
proof (induction ps arbitrary: acc)
  case Nil
  then show ?case by simp
next
  case (Cons p ps)
  show ?case
  proof (cases "map_of (pages state) (str_int p)")
    case None
    with Cons show ?thesis by (simp add: pages_without_unreported)
  next
    case (Some unit)
    let ?kept = "filter (\<lambda>kv. reported (status (snd kv))) (problems unit)"
    show ?thesis
    proof (cases "problems unit = []")
      case True
      with Some Cons show ?thesis by (simp add: pages_without_unreported)
    next
      case False
      with Cons.prems Some obtain xs where
        xs: "sorted_items (problems unit) = Inr xs"
        and rest: "summary_pages (pages state) ps (foldl (\<lambda>a kv. add_problem p kv a) acc xs) = Inr r"
        by (auto split: sum.splits)
      have kept: "sorted_items ?kept = Inr (filter (\<lambda>kv. reported (status (snd kv))) xs)"
        using xs by (rule sorted_items_filter)
      have "sorted_items ?kept = Inr (sort_key (\<lambda>kv. the (py_int (fst kv))) ?kept)"
        using kept by (auto simp: sorted_items_def split: option.splits)
      with kept have "filter (\<lambda>kv. reported (status (snd kv))) xs
          = sort_key (\<lambda>kv. the (py_int (fst kv))) ?kept"
        by simp
      then have len: "length (filter (\<lambda>kv. reported (status (snd kv))) xs) = length ?kept"
        by simp
      have same: "foldl (\<lambda>a kv. add_problem p kv a) acc (filter (\<lambda>kv. reported (status (snd kv))) xs)
                   = foldl (\<lambda>a kv. add_problem p kv a) acc xs"
        by (rule foldl_add_problem_reported)
      show ?thesis
      proof (cases "?kept = []")
        case True
        with len have "filter (\<lambda>kv. reported (status (snd kv))) xs = []" by simp
        with same have "foldl (\<lambda>a kv. add_problem p kv a) acc xs = acc" by simp
        with rest True Some Cons.IH show ?thesis
          by (simp add: pages_without_unreported)
      next
        case False
        with kept same rest Some Cons.IH show ?thesis
          by (simp add: pages_without_unreported)
      qed
    qed
  qed
qed

text \<open>
  Claim C9. A problem whose status is none of wrong, wrong but fixed, and question (the
  done status among them) adds nothing to any of the three sections: the step of the loop
  leaves the three lists as they are, and every summary \<open>build_summary\<close> produces is also
  the summary of the state from which all such problems have been taken out.
\<close>

theorem build_summary_ignores_unreported:
  "\<not> reported STATUS_DONE
   \<and> (\<forall>p num (pr::Problem) acc.
         \<not> reported (status pr) \<longrightarrow> add_problem p (num, pr) acc = acc)
   \<and> (\<forall>out. build_summary state today = Inr out \<longrightarrow>
         build_summary (without_unreported state) today = Inr out)"
proof (intro conjI allI impI)
  show "\<not> reported STATUS_DONE"
    by (simp add: reported_def statuses_distinct)
next
  fix p num and pr :: Problem and acc
  assume "\<not> reported (status pr)"
  then show "add_problem p (num, pr) acc = acc" by (rule add_problem_unreported)
next
  fix out
  assume b: "build_summary state today = Inr out"
  have f: "start_page (without_unreported state) = start_page state"
    "end_page (without_unreported state) = end_page state"
    "book_name (without_unreported state) = book_name state"
    by (simp_all add: without_unreported_def)
  show "build_summary (without_unreported state) today = Inr out"
  proof (cases "start_page state = None \<or> end_page state = None")
    case True
    with b f show ?thesis by (auto simp: build_summary_def split: option.splits)
  next
    case False
    then obtain a c where ac: "start_page state = Some a" "end_page state = Some c" by auto
    obtain sp ep where cl: "clamp_pages a c = (sp, ep)" by (cases "clamp_pages a c")
    from b ac cl obtain r where
      r: "summary_pages (pages state) [sp..ep] ([], [], []) = Inr r"
      and out: "out = render (book_name state) sp ep today r"
      by (auto simp: build_summary_def split: sum.splits)
    from r have "summary_pages (pages (without_unreported state)) [sp..ep] ([], [], []) = Inr r"
      by (rule summary_pages_without_unreported)
    with ac cl out f show ?thesis by (simp add: build_summary_def)
  qed
qed

theorem build_summary_ignores_unreported_witness:
  "status (snd (''2'', \<lparr>status = STATUS_DONE, memo = ''kept''\<rparr>)) = STATUS_DONE
   \<and> add_problem 7 (''2'', \<lparr>status = STATUS_DONE, memo = ''kept''\<rparr>) ([''a''], [''b''], [''c''])
       = ([''a''], [''b''], [''c''])
   \<and> add_problem 7 (''2'', \<lparr>status = ''banana'', memo = ''kept''\<rparr>) ([''a''], [''b''], [''c''])
       = ([''a''], [''b''], [''c''])
   \<and> build_summary (without_unreported summary_state) ''2024-05-01''
       = build_summary summary_state ''2024-05-01''
   \<and> pages (without_unreported summary_state) =
       [(''1'', \<lparr>page_done = False, start_problem = Some 1, end_problem = Some 3,
                 problems = [(''3'', \<lparr>status = STATUS_WRONG, memo = ''''\<rparr>)]\<rparr>)]"
proof -
  note t = build_summary_ignores_unreported [of summary_state "''2024-05-01''"]
  from t have d: "\<not> reported STATUS_DONE" by (rule conjunct1)
  from t have step:
    "\<not> reported (status pr) \<Longrightarrow> add_problem p (num, pr) acc = acc"
    for p num acc and pr :: Problem
    by blast
  from t have whole:
    "build_summary summary_state ''2024-05-01'' = Inr out \<Longrightarrow>
       build_summary (without_unreported summary_state) ''2024-05-01'' = Inr out" for out
    by blast
  have n: "\<not> reported ''banana''"
    by (simp add: reported_def STATUS_WRONG_def STATUS_FIXED_def STATUS_QUESTION_def)
  have a1: "add_problem 7 (''2'', \<lparr>status = STATUS_DONE, memo = ''kept''\<rparr>) ([''a''], [''b''], [''c''])
       = ([''a''], [''b''], [''c''])"
    by (rule step) (simp add: d)
  have a2: "add_problem 7 (''2'', \<lparr>status = ''banana'', memo = ''kept''\<rparr>) ([''a''], [''b''], [''c''])
       = ([''a''], [''b''], [''c''])"
    by (rule step) (simp add: n)
  have "\<not> isl (build_summary summary_state ''2024-05-01'')"
    by code_simp
  then obtain out where o: "build_summary summary_state ''2024-05-01'' = Inr out"
    by (cases "build_summary summary_state ''2024-05-01''") auto
  have w: "build_summary (without_unreported summary_state) ''2024-05-01''
       = build_summary summary_state ''2024-05-01''"
    using whole [OF o] o by simp
  have p: "pages (without_unreported summary_state) =
       [(''1'', \<lparr>page_done = False, start_problem = Some 1, end_problem = Some 3,
                 problems = [(''3'', \<lparr>status = STATUS_WRONG, memo = ''''\<rparr>)]\<rparr>)]"
    by code_simp
  show ?thesis
    unfolding a1 a2 w p by simp
qed


section \<open>Saving and loading\<close>
























section \<open>What \<open>load_state\<close> accepts\<close>

lemma load_problem_isl: "isl (load_problem R v) \<longleftrightarrow> \<not> is_object v"
  by (cases v) (simp_all add: load_problem_def get_def and_then_def is_object_def)

lemma load_problems_isl:
  "isl (load_problems R kvs acc) \<longleftrightarrow> \<not> list_all (\<lambda>kv. is_object (snd kv)) kvs"
proof (induction kvs arbitrary: acc)
  case Nil
  show ?case by simp
next
  case (Cons kv kvs)
  obtain k v where kv: "kv = (k, v)" by (cases kv)
  show ?case
    using load_problem_isl [of R v] Cons.IH
    by (cases "load_problem R v") (auto simp: kv and_then_def)
qed

lemma items_isl: "isl (items v) \<longleftrightarrow> \<not> is_object v"
  by (cases v) (simp_all add: items_def is_object_def)

lemma load_unit_isl: "isl (load_unit R pu) \<longleftrightarrow> \<not> unit_readable pu"
proof (cases pu)
  case (JObj d)
  show ?thesis
  proof (cases "or_empty (field d ''problems'' (JObj []))")
    case (JObj prs)
    then show ?thesis
      using load_problems_isl [of R prs "[]"] \<open>pu = JObj d\<close>
      by (cases "load_problems R prs []")
         (auto simp: load_unit_def get_def and_then_def unit_readable_def field_def items_def)
  qed (auto simp: \<open>pu = JObj d\<close> load_unit_def get_def and_then_def unit_readable_def
        field_def items_def)
qed (simp_all add: load_unit_def get_def and_then_def unit_readable_def)

lemma load_pages_isl:
  "isl (load_pages R kvs acc) \<longleftrightarrow> \<not> list_all (\<lambda>kv. unit_readable (snd kv)) kvs"
proof (induction kvs arbitrary: acc)
  case Nil
  show ?case by simp
next
  case (Cons kv kvs)
  obtain k v where kv: "kv = (k, v)" by (cases kv)
  show ?case
    using load_unit_isl [of R v] Cons.IH
    by (cases "load_unit R v") (auto simp: kv and_then_def)
qed

lemma load_raw_isl: "isl (load_raw R raw) \<longleftrightarrow> \<not> readable raw"
proof (cases raw)
  case (JObj d)
  show ?thesis
  proof (cases "or_empty (field d ''pages'' (JObj []))")
    case (JObj pgs)
    then show ?thesis
      using load_pages_isl [of R pgs "[]"] \<open>raw = JObj d\<close>
      by (cases "load_pages R pgs []")
         (auto simp: load_raw_def get_def and_then_def readable_def field_def items_def)
  qed (auto simp: \<open>raw = JObj d\<close> load_raw_def get_def and_then_def readable_def
        field_def items_def)
qed (simp_all add: load_raw_def get_def and_then_def readable_def)

lemma load_state_None_iff:
  "load_state R dsk = None \<longleftrightarrow>
     (case state_file dsk of
        None \<Rightarrow> True
      | Some (Document j) \<Rightarrow> \<not> readable (loaded j)
      | Some _ \<Rightarrow> True)"
proof (cases "state_file dsk")
  case None
  then show ?thesis by (simp add: load_state_def)
next
  case (Some c)
  show ?thesis
  proof (cases c)
    case (Document j)
    with Some show ?thesis
      using load_raw_isl [of R "loaded j"]
      by (cases "load_raw R (loaded j)") (auto simp: load_state_def json_load_def)
  qed (simp_all add: Some load_state_def json_load_def)
qed

lemma set_update_subset: "set (AList.update k v al) \<subseteq> insert (k, v) (set al)"
  by (induction al) auto

lemma load_problems_from:
  "load_problems R kvs acc = Inr d \<Longrightarrow> (k, p) \<in> set d \<Longrightarrow>
     (k, p) \<in> set acc \<or> (\<exists>v. (k, v) \<in> set kvs \<and> load_problem R v = Inr p)"
proof (induction kvs arbitrary: acc)
  case Nil
  then show ?case by simp
next
  case (Cons kv kvs)
  obtain k' v' where kv: "kv = (k', v')" by (cases kv)
  from Cons.prems(1) obtain p' where
    p': "load_problem R v' = Inr p'"
    and rest: "load_problems R kvs (AList.update k' p' acc) = Inr d"
    by (auto simp: kv and_then_def py_str_def split: sum.splits)
  from Cons.IH [OF rest Cons.prems(2)] show ?case
    using p' set_update_subset [of k' p' acc] by (auto simp: kv)
qed

lemma load_pages_from:
  "load_pages R kvs acc = Inr d \<Longrightarrow> (k, u) \<in> set d \<Longrightarrow>
     (k, u) \<in> set acc \<or> (\<exists>pu. (k, pu) \<in> set kvs \<and> load_unit R pu = Inr u)"
proof (induction kvs arbitrary: acc)
  case Nil
  then show ?case by simp
next
  case (Cons kv kvs)
  obtain k' v' where kv: "kv = (k', v')" by (cases kv)
  from Cons.prems(1) obtain u' where
    u': "load_unit R v' = Inr u'"
    and rest: "load_pages R kvs (AList.update k' u' acc) = Inr d"
    by (auto simp: kv and_then_def py_str_def split: sum.splits)
  from Cons.IH [OF rest Cons.prems(2)] show ?case
    using u' set_update_subset [of k' u' acc] by (auto simp: kv)
qed

lemma load_problem_defaults:
  assumes "load_problem R v = Inr p"
  shows "\<exists>d. v = JObj d
           \<and> status p = py_str R (field d ''status'' (JStr STATUS_DONE))
           \<and> memo p = py_str R (field d ''memo'' (JStr []))"
  using assms
  by (cases v) (auto simp: load_problem_def get_def and_then_def field_def)

lemma load_unit_defaults:
  assumes "load_unit R pu = Inr u"
  shows "\<exists>d. pu = JObj d
           \<and> page_done u = truthy (field d ''done'' (JBool False))
           \<and> start_problem u = field d ''start_problem'' JNull
           \<and> end_problem u = field d ''end_problem'' JNull
           \<and> (\<forall>k p. (k, p) \<in> set (problems u) \<longrightarrow>
                 (\<exists>prs v. or_empty (field d ''problems'' (JObj [])) = JObj prs
                    \<and> (k, v) \<in> set prs \<and> load_problem R v = Inr p))
           \<and> (\<not> truthy (field d ''problems'' (JObj [])) \<longrightarrow> problems u = [])"
proof (cases pu)
  case (JObj d)
  from assms obtain prs ps where
    prs: "or_empty (field d ''problems'' (JObj [])) = JObj prs"
    and ps: "load_problems R prs [] = Inr ps"
    and u: "u = \<lparr>page_done = truthy (field d ''done'' (JBool False)),
                 start_problem = field d ''start_problem'' JNull,
                 end_problem = field d ''end_problem'' JNull, problems = ps\<rparr>"
    by (auto simp: JObj load_unit_def get_def and_then_def field_def items_def
        split: sum.splits json.splits)
  have "\<exists>v. (k, v) \<in> set prs \<and> load_problem R v = Inr p" if "(k, p) \<in> set ps" for k p
    using load_problems_from [OF ps that] by simp
  moreover have "ps = []" if "\<not> truthy (field d ''problems'' (JObj []))"
    using that prs ps by (auto simp: or_empty_def)
  ultimately show ?thesis
    using prs by (auto simp: JObj u)
qed (use assms in \<open>simp_all add: load_unit_def get_def and_then_def\<close>)

lemma load_raw_defaults:
  assumes "load_raw R raw = Inr stt"
  shows "\<exists>d. raw = JObj d
           \<and> book_name stt = py_str R (field d ''book_name'' (JStr []))
           \<and> start_page stt = field d ''start_page'' JNull
           \<and> end_page stt = field d ''end_page'' JNull
           \<and> (\<forall>k u. (k, u) \<in> set (pages stt) \<longrightarrow>
                 (\<exists>pgs pu. or_empty (field d ''pages'' (JObj [])) = JObj pgs
                    \<and> (k, pu) \<in> set pgs \<and> load_unit R pu = Inr u))
           \<and> (\<not> truthy (field d ''pages'' (JObj [])) \<longrightarrow> pages stt = [])"
proof (cases raw)
  case (JObj d)
  from assms obtain pgs ps where
    pgs: "or_empty (field d ''pages'' (JObj [])) = JObj pgs"
    and ps: "load_pages R pgs [] = Inr ps"
    and stt: "stt = \<lparr>book_name = py_str R (field d ''book_name'' (JStr [])),
                   start_page = field d ''start_page'' JNull,
                   end_page = field d ''end_page'' JNull, pages = ps\<rparr>"
    by (auto simp: JObj load_raw_def get_def and_then_def field_def items_def
        split: sum.splits json.splits)
  have "\<exists>pu. (k, pu) \<in> set pgs \<and> load_unit R pu = Inr u" if "(k, u) \<in> set ps" for k u
    using load_pages_from [OF ps that] by simp
  moreover have "ps = []" if "\<not> truthy (field d ''pages'' (JObj []))"
    using that pgs ps by (auto simp: or_empty_def)
  ultimately show ?thesis
    using pgs by (auto simp: JObj stt)
qed (use assms in \<open>simp_all add: load_raw_def get_def and_then_def\<close>)

lemma load_state_bare_doc:
  "load_state R (on_disk (bare_doc pk k)) =
     Some \<lparr>book_name = [], start_page = JNull, end_page = JNull,
           pages = [(pk, \<lparr>page_done = False, start_problem = JNull, end_problem = JNull,
                           problems = [(k, \<lparr>status = STATUS_DONE, memo = []\<rparr>)]\<rparr>)]\<rparr>"
  by (simp add: load_state_def on_disk_def bare_doc_def json_load_def dict_def load_raw_def
      load_unit_def load_problem_def get_def items_def or_empty_def truthy_def and_then_def
      py_str_def)

text \<open>
  Claim C7 says that \<open>load_state\<close> returns \<open>None\<close> whenever the content has the wrong
  structure. It does so exactly when reading raises, and not every wrong structure makes
  it raise: a \<open>pages\<close> or \<open>problems\<close> value that is false in a condition (an empty array,
  \<open>false\<close>, 0, an empty string, \<open>null\<close>) is read as an empty mapping, and a bound is stored
  as found, whatever it is.
\<close>

theorem load_state_accepts_misshapen:
  "\<not> is_object (JArr [])
   \<and> load_state (\<lambda>v. []) (on_disk (JObj [(''pages'', JArr [])])) =
       Some \<lparr>book_name = [], start_page = JNull, end_page = JNull, pages = []\<rparr>
   \<and> load_state (\<lambda>v. [])
        (on_disk (JObj [(''start_page'', JStr ''soon''),
                        (''pages'', JObj [(''1'', JObj [(''problems'', JBool False)])])])) =
       Some \<lparr>book_name = [], start_page = JStr ''soon'', end_page = JNull,
             pages = [(''1'', \<lparr>page_done = False, start_problem = JNull,
                               end_problem = JNull, problems = []\<rparr>)]\<rparr>"
  by (simp add: is_object_def load_state_def on_disk_def json_load_def dict_def load_raw_def
      load_unit_def get_def items_def or_empty_def truthy_def and_then_def py_str_def)

text \<open>
  Claim C7, amended. \<open>load_state\<close> returns \<open>None\<close> exactly when the state file is absent,
  when its content is not a JSON text, or when the document is not readable: the
  document, a page unit or a problem is not an object, or a \<open>pages\<close> or \<open>problems\<close> value
  is true in a condition and not an object. It returns in every case, so no error
  reaches the caller. When it returns a state, every field is read with its default for
  a missing member: the book name from \<open>book_name\<close> or the empty string, each bound the
  member as found or \<open>None\<close>, the done flag the truth value of \<open>done\<close> or false, the status
  from \<open>status\<close> or the done status, the memo from \<open>memo\<close> or the empty string; missing or
  false \<open>pages\<close> and \<open>problems\<close> give no pages and no problems. A document with one page
  and one problem and no other member loads to exactly these defaults.
\<close>

theorem load_state_none_and_defaults:
  "(load_state R dsk = None \<longleftrightarrow>
      (case state_file dsk of
         None \<Rightarrow> True
       | Some (Document j) \<Rightarrow> \<not> readable (loaded j)
       | Some _ \<Rightarrow> True))
   \<and> (\<forall>d k dflt. map_of d k = None \<longrightarrow> field d k dflt = dflt)
   \<and> py_str R (JStr []) = [] \<and> py_str R (JStr STATUS_DONE) = STATUS_DONE
   \<and> \<not> truthy (JBool False) \<and> \<not> truthy (JObj [])
   \<and> (\<forall>j stt. state_file dsk = Some (Document j) \<and> load_state R dsk = Some stt \<longrightarrow>
        (\<exists>d. loaded j = JObj d
           \<and> book_name stt = py_str R (field d ''book_name'' (JStr []))
           \<and> start_page stt = field d ''start_page'' JNull
           \<and> end_page stt = field d ''end_page'' JNull
           \<and> (\<not> truthy (field d ''pages'' (JObj [])) \<longrightarrow> pages stt = [])
           \<and> (\<forall>pk u. (pk, u) \<in> set (pages stt) \<longrightarrow>
                (\<exists>pgs e. or_empty (field d ''pages'' (JObj [])) = JObj pgs
                   \<and> (pk, JObj e) \<in> set pgs
                   \<and> page_done u = truthy (field e ''done'' (JBool False))
                   \<and> start_problem u = field e ''start_problem'' JNull
                   \<and> end_problem u = field e ''end_problem'' JNull
                   \<and> (\<not> truthy (field e ''problems'' (JObj [])) \<longrightarrow> problems u = [])
                   \<and> (\<forall>k p. (k, p) \<in> set (problems u) \<longrightarrow>
                        (\<exists>prs f. or_empty (field e ''problems'' (JObj [])) = JObj prs
                           \<and> (k, JObj f) \<in> set prs
                           \<and> status p = py_str R (field f ''status'' (JStr STATUS_DONE))
                           \<and> memo p = py_str R (field f ''memo'' (JStr []))))))))
   \<and> (\<forall>pk k. load_state R (on_disk (bare_doc pk k)) =
         Some \<lparr>book_name = [], start_page = JNull, end_page = JNull,
               pages = [(pk, \<lparr>page_done = False, start_problem = JNull, end_problem = JNull,
                               problems = [(k, \<lparr>status = STATUS_DONE, memo = []\<rparr>)]\<rparr>)]\<rparr>)"
proof (intro conjI allI impI)
  show "load_state R dsk = None \<longleftrightarrow>
      (case state_file dsk of
         None \<Rightarrow> True
       | Some (Document j) \<Rightarrow> \<not> readable (loaded j)
       | Some _ \<Rightarrow> True)"
    by (rule load_state_None_iff)
next
  fix d :: "(string \<times> json) list" and k dflt
  assume "map_of d k = None"
  then show "field d k dflt = dflt" by (simp add: field_def)
next
  show "py_str R (JStr []) = []" "py_str R (JStr STATUS_DONE) = STATUS_DONE"
    by (simp_all add: py_str_def)
next
  show "\<not> truthy (JBool False)" "\<not> truthy (JObj [])"
    by (simp_all add: truthy_def)
next
  fix pk k
  show "load_state R (on_disk (bare_doc pk k)) =
         Some \<lparr>book_name = [], start_page = JNull, end_page = JNull,
               pages = [(pk, \<lparr>page_done = False, start_problem = JNull, end_problem = JNull,
                               problems = [(k, \<lparr>status = STATUS_DONE, memo = []\<rparr>)]\<rparr>)]\<rparr>"
    by (rule load_state_bare_doc)
next
  fix j stt
  assume a: "state_file dsk = Some (Document j) \<and> load_state R dsk = Some stt"
  then have raw: "load_raw R (loaded j) = Inr stt"
    by (auto simp: load_state_def json_load_def split: sum.splits)
  from load_raw_defaults [OF raw] obtain d where
    d: "loaded j = JObj d"
    and top: "book_name stt = py_str R (field d ''book_name'' (JStr []))"
      "start_page stt = field d ''start_page'' JNull"
      "end_page stt = field d ''end_page'' JNull"
      "\<not> truthy (field d ''pages'' (JObj [])) \<longrightarrow> pages stt = []"
    and units: "\<And>pk u. (pk, u) \<in> set (pages stt) \<Longrightarrow>
        \<exists>pgs pu. or_empty (field d ''pages'' (JObj [])) = JObj pgs
          \<and> (pk, pu) \<in> set pgs \<and> load_unit R pu = Inr u"
    by blast
  have "\<exists>pgs e. or_empty (field d ''pages'' (JObj [])) = JObj pgs
                   \<and> (pk, JObj e) \<in> set pgs
                   \<and> page_done u = truthy (field e ''done'' (JBool False))
                   \<and> start_problem u = field e ''start_problem'' JNull
                   \<and> end_problem u = field e ''end_problem'' JNull
                   \<and> (\<not> truthy (field e ''problems'' (JObj [])) \<longrightarrow> problems u = [])
                   \<and> (\<forall>k p. (k, p) \<in> set (problems u) \<longrightarrow>
                        (\<exists>prs f. or_empty (field e ''problems'' (JObj [])) = JObj prs
                           \<and> (k, JObj f) \<in> set prs
                           \<and> status p = py_str R (field f ''status'' (JStr STATUS_DONE))
                           \<and> memo p = py_str R (field f ''memo'' (JStr []))))"
    if m: "(pk, u) \<in> set (pages stt)" for pk u
  proof -
    from units [OF m] obtain pgs pu where
      pgs: "or_empty (field d ''pages'' (JObj [])) = JObj pgs"
      and pu: "(pk, pu) \<in> set pgs" and lu: "load_unit R pu = Inr u"
      by blast
    from load_unit_defaults [OF lu] obtain e where
      e: "pu = JObj e"
      and fields: "page_done u = truthy (field e ''done'' (JBool False))"
        "start_problem u = field e ''start_problem'' JNull"
        "end_problem u = field e ''end_problem'' JNull"
        "\<not> truthy (field e ''problems'' (JObj [])) \<longrightarrow> problems u = []"
      and probs: "\<And>k p. (k, p) \<in> set (problems u) \<Longrightarrow>
          \<exists>prs v. or_empty (field e ''problems'' (JObj [])) = JObj prs
            \<and> (k, v) \<in> set prs \<and> load_problem R v = Inr p"
      by blast
    have "\<exists>prs f. or_empty (field e ''problems'' (JObj [])) = JObj prs
                           \<and> (k, JObj f) \<in> set prs
                           \<and> status p = py_str R (field f ''status'' (JStr STATUS_DONE))
                           \<and> memo p = py_str R (field f ''memo'' (JStr []))"
      if n: "(k, p) \<in> set (problems u)" for k p
    proof -
      from probs [OF n] obtain prs v where
        prs: "or_empty (field e ''problems'' (JObj [])) = JObj prs"
        and v: "(k, v) \<in> set prs" and lp: "load_problem R v = Inr p"
        by blast
      from load_problem_defaults [OF lp] v prs show ?thesis by blast
    qed
    with pgs pu e fields show ?thesis by blast
  qed
  with d top show "\<exists>d. loaded j = JObj d
           \<and> book_name stt = py_str R (field d ''book_name'' (JStr []))
           \<and> start_page stt = field d ''start_page'' JNull
           \<and> end_page stt = field d ''end_page'' JNull
           \<and> (\<not> truthy (field d ''pages'' (JObj [])) \<longrightarrow> pages stt = [])
           \<and> (\<forall>pk u. (pk, u) \<in> set (pages stt) \<longrightarrow>
                (\<exists>pgs e. or_empty (field d ''pages'' (JObj [])) = JObj pgs
                   \<and> (pk, JObj e) \<in> set pgs
                   \<and> page_done u = truthy (field e ''done'' (JBool False))
                   \<and> start_problem u = field e ''start_problem'' JNull
                   \<and> end_problem u = field e ''end_problem'' JNull
                   \<and> (\<not> truthy (field e ''problems'' (JObj [])) \<longrightarrow> problems u = [])
                   \<and> (\<forall>k p. (k, p) \<in> set (problems u) \<longrightarrow>
                        (\<exists>prs f. or_empty (field e ''problems'' (JObj [])) = JObj prs
                           \<and> (k, JObj f) \<in> set prs
                           \<and> status p = py_str R (field f ''status'' (JStr STATUS_DONE))
                           \<and> memo p = py_str R (field f ''memo'' (JStr []))))))"
    by blast
qed

theorem load_state_none_and_defaults_witness:
  "load_state (\<lambda>v. []) empty_disk = None
   \<and> load_state (\<lambda>v. []) \<lparr>state_file = Some Malformed, bak_file = None\<rparr> = None
   \<and> load_state (\<lambda>v. []) (on_disk (JArr [])) = None
   \<and> load_state (\<lambda>v. []) (on_disk (JObj [(''pages'', JArr [JNull])])) = None
   \<and> load_state (\<lambda>v. []) (on_disk (JObj [(''pages'', JObj [(''1'', JInt 5)])])) = None
   \<and> load_state (\<lambda>v. []) (on_disk (bare_doc ''12'' ''3'')) =
       Some \<lparr>book_name = [], start_page = JNull, end_page = JNull,
             pages = [(''12'', \<lparr>page_done = False, start_problem = JNull, end_problem = JNull,
                                problems = [(''3'', \<lparr>status = STATUS_DONE, memo = []\<rparr>)]\<rparr>)]\<rparr>"
proof -
  have r: "\<not> readable (loaded (JArr []))"
    "\<not> readable (loaded (JObj [(''pages'', JArr [JNull])]))"
    "\<not> readable (loaded (JObj [(''pages'', JObj [(''1'', JInt 5)])]))"
    by (simp_all add: readable_def unit_readable_def dict_def field_def or_empty_def truthy_def)
  note t = load_state_none_and_defaults [where R = "\<lambda>v. []"]
  have 1: "load_state (\<lambda>v. []) empty_disk = None"
    using t [of empty_disk, THEN conjunct1] by (simp add: empty_disk_def)
  have 2: "load_state (\<lambda>v. []) \<lparr>state_file = Some Malformed, bak_file = None\<rparr> = None"
    using t [of "\<lparr>state_file = Some Malformed, bak_file = None\<rparr>", THEN conjunct1] by simp
  have 3: "load_state (\<lambda>v. []) (on_disk (JArr [])) = None"
    using t [of "on_disk (JArr [])", THEN conjunct1] r(1) by (simp add: on_disk_def)
  have 4: "load_state (\<lambda>v. []) (on_disk (JObj [(''pages'', JArr [JNull])])) = None"
    using t [of "on_disk (JObj [(''pages'', JArr [JNull])])", THEN conjunct1] r(2)
    by (simp add: on_disk_def)
  have 5: "load_state (\<lambda>v. []) (on_disk (JObj [(''pages'', JObj [(''1'', JInt 5)])])) = None"
    using t [of "on_disk (JObj [(''pages'', JObj [(''1'', JInt 5)])])", THEN conjunct1] r(3)
    by (simp add: on_disk_def)
  have 6: "load_state (\<lambda>v. []) (on_disk (bare_doc ''12'' ''3'')) =
       Some \<lparr>book_name = [], start_page = JNull, end_page = JNull,
             pages = [(''12'', \<lparr>page_done = False, start_problem = JNull, end_problem = JNull,
                                problems = [(''3'', \<lparr>status = STATUS_DONE, memo = []\<rparr>)]\<rparr>)]\<rparr>"
    using t [of empty_disk] by blast
  from 1 2 3 4 5 6 show ?thesis by (intro conjI)
qed

text \<open>
  Claim C10. \<open>load_state\<close> does not check a status against the four statuses: a document
  whose one problem has the status \<open>s\<close> loads to a state whose problem has the status
  \<open>s\<close>, whatever string \<open>s\<close> is; for one, \<open>banana\<close> is none of the four.
\<close>

theorem load_state_keeps_status:
  "load_state R (on_disk (status_doc s)) =
     Some \<lparr>book_name = [], start_page = JNull, end_page = JNull,
           pages = [(''1'', \<lparr>page_done = False, start_problem = JNull, end_problem = JNull,
                             problems = [(''1'', \<lparr>status = s, memo = []\<rparr>)]\<rparr>)]\<rparr>
   \<and> ''banana'' \<notin> set STATUSES"
  by (simp add: load_state_def on_disk_def status_doc_def json_load_def dict_def load_raw_def
      load_unit_def load_problem_def get_def items_def or_empty_def truthy_def and_then_def
      py_str_def STATUSES_def STATUS_DONE_def STATUS_WRONG_def STATUS_FIXED_def
      STATUS_QUESTION_def)


end
